theory Spec2Isabelle
  imports Main "HOL-Library.Word"
begin

section \<open>The controller-manager bootstrap of cluster-api-provider-metal3 (main.go)\<close>

text \<open>
  A shallow embedding of \<^verbatim>\<open>main.go\<close>. Go's multiple return values \<^verbatim>\<open>(v, err)\<close> are pairs
  whose second component is \<open>None\<close> for a nil error; a nil slice is the empty list;
  \<^verbatim>\<open>uint16\<close> is \<open>16 word\<close>. Calls into the libraries the program is linked with
  (controller-runtime, client-go, component-base) are not part of the program: what they
  return is a parameter of the model, and every call the program makes to them is
  recorded, in order, as an event.
\<close>

subsection \<open>Data\<close>

type_synonym uint16 = "16 word"

text \<open>The two labels \<^verbatim>\<open>TLSVersion12\<close>, \<^verbatim>\<open>TLSVersion13\<close> and the identifiers of crypto/tls.\<close>

definition TLSVersion12 :: string where
  "TLSVersion12 = ''TLS12''"

definition TLSVersion13 :: string where
  "TLSVersion13 = ''TLS13''"

definition VersionTLS12 :: uint16 where
  "VersionTLS12 = 0x0303"

definition VersionTLS13 :: uint16 where
  "VersionTLS13 = 0x0304"

record TLSOptions =
  TLSMaxVersion :: string
  TLSMinVersion :: string
  TLSCipherSuites :: string

text \<open>The three fields of \<^verbatim>\<open>tls.Config\<close> that the program writes.\<close>

record tls_Config =
  MinVersion :: uint16
  MaxVersion :: uint16
  CipherSuites :: "uint16 list"

text \<open>
  The errors the program builds with \<^verbatim>\<open>fmt.Errorf\<close>, with the arguments of the format
  string as payload, the error of \<^verbatim>\<open>cliflag.TLSCipherSuites\<close>, and the errors of the other
  collaborators, which the program only passes on.
\<close>

datatype error =
  UnexpectedTLSVersion string
| MinGreaterThanMax string string
| CipherSuiteNotSupported string
| ExternalError string

text \<open>
  The function literals \<^verbatim>\<open>func(cfg *tls.Config) { cfg.F = x }\<close> appended to the result
  of \<^verbatim>\<open>GetTLSOptionOverrideFuncs\<close>: one constructor for each of the three literals,
  holding the variable the closure captures; \<open>applyMutator\<close> is the body.
\<close>

datatype mutator =
  SetMinVersion uint16
| SetMaxVersion uint16
| SetCipherSuites "uint16 list"

fun applyMutator :: "mutator \<Rightarrow> tls_Config \<Rightarrow> tls_Config" where
  "applyMutator (SetMinVersion v) cfg = cfg\<lparr>MinVersion := v\<rparr>"
| "applyMutator (SetMaxVersion v) cfg = cfg\<lparr>MaxVersion := v\<rparr>"
| "applyMutator (SetCipherSuites s) cfg = cfg\<lparr>CipherSuites := s\<rparr>"

text \<open>The caller runs the functions of the list one after the other on one configuration.\<close>

definition applyAll :: "mutator list \<Rightarrow> tls_Config \<Rightarrow> tls_Config" where
  "applyAll ms cfg = fold applyMutator ms cfg"

fun isCipherMutator :: "mutator \<Rightarrow> bool" where
  "isCipherMutator (SetCipherSuites s) = True"
| "isCipherMutator m = False"

text \<open>The seven reconcilers and the eight webhooks that \<^verbatim>\<open>main.go\<close> registers.\<close>

datatype reconciler =
  Metal3MachineReconciler
| Metal3ClusterReconciler
| Metal3DataTemplateReconciler
| Metal3DataReconciler
| Metal3LabelSyncReconciler
| Metal3MachineTemplateReconciler
| Metal3RemediationReconciler

datatype webhook =
  Metal3Cluster
| Metal3Machine
| Metal3MachineTemplate
| Metal3DataTemplate
| Metal3Data
| Metal3DataClaim
| Metal3Remediation
| Metal3RemediationTemplate

text \<open>
  What the process does that can be seen from outside, in the order it does it: the lines
  written to \<^verbatim>\<open>setupLog\<close>, the sleeps, and the calls to the collaborators. The two
  formatted messages of \<^verbatim>\<open>waitForAPIs\<close> and the formatted cipher warning keep their
  arguments instead of the formatted text.
\<close>

datatype event =
  Info string
| InfoInsecureCipher string
| InfoWaitingForAPI error
| InfoFoundAPI
| LogError error string "string list"
| Sleep int
| CallGetConfig
| CallNewManager "mutator list"
| CallNewDiscoveryClient
| CallServerSupportsVersion
| CallAddReadyzCheck
| CallAddHealthzCheck
| CallSetupWithManager reconciler int
| CallSetupWebhookWithManager webhook
| SetBMHNameBasedPreallocation
| CallStart

subsection \<open>The cipher registry of component-base\<close>

text \<open>
  \<^verbatim>\<open>cliflag.TLSCipherSuites\<close> and \<^verbatim>\<open>cliflag.InsecureTLSCipherNames\<close> belong to
  k8s.io/component-base. The tables they read are parameters: the map from every cipher
  name the library knows to its identifier, and the list of the names it calls insecure.
\<close>

record cliflag =
  allCiphers :: "string \<Rightarrow> uint16 option"
  InsecureTLSCipherNames :: "string list"

text \<open>
  Modelled from the spec: \<^verbatim>\<open>cliflag.TLSCipherSuites\<close> is not in the source tree. Each name
  is resolved to its identifier, in order; the first name that does not resolve fails the
  whole call with the unknown-cipher-suite error, and no identifiers are returned.
\<close>

fun cliflag_TLSCipherSuites :: "cliflag \<Rightarrow> string list \<Rightarrow> uint16 list \<times> error option" where
  "cliflag_TLSCipherSuites lib [] = ([], None)"
| "cliflag_TLSCipherSuites lib (cipher # rest) =
     (case allCiphers lib cipher of
        None \<Rightarrow> ([], Some (CipherSuiteNotSupported cipher))
      | Some intValue \<Rightarrow>
          (case cliflag_TLSCipherSuites lib rest of
             (ids, None) \<Rightarrow> (intValue # ids, None)
           | (ids, Some err) \<Rightarrow> ([], Some err)))"

subsection \<open>strings.Split with a one-character separator\<close>

fun Split :: "string \<Rightarrow> char \<Rightarrow> string list" where
  "Split [] sep = [Nil]"
| "Split (c # cs) sep =
     (if c = sep then [] # Split cs sep
      else (case Split cs sep of
              [] \<Rightarrow> [c # Nil]
            | w # ws \<Rightarrow> (c # w) # ws))"

subsection \<open>GetTLSVersion and GetTLSOptionOverrideFuncs\<close>

definition GetTLSVersion :: "string \<Rightarrow> uint16 \<times> error option" where
  "GetTLSVersion version =
     (if version = TLSVersion12 then (VersionTLS12, None)
      else if version = TLSVersion13 then (VersionTLS13, None)
      else (0, Some (UnexpectedTLSVersion version)))"

text \<open>
  The two nested loops over the cipher names and the insecure names: one warning for each
  pair of a given name and an equal insecure name, in the order of the given names.
\<close>

definition insecureWarnings :: "string list \<Rightarrow> string list \<Rightarrow> event list" where
  "insecureWarnings insecureCipherValues tlsCipherSuites =
     concat (map (\<lambda>cipher.
       concat (map (\<lambda>insecureCipherName.
         if insecureCipherName = cipher then [InfoInsecureCipher cipher] else [])
         insecureCipherValues))
       tlsCipherSuites)"

definition warnIgnoringCiphers :: event where
  "warnIgnoringCiphers =
     Info ''warning: Cipher suites should not be set for TLS version 1.3. Ignoring ciphers''"

text \<open>
  The result is the pair the Go function returns, and the lines it wrote to the log.
  \<open>ciphers\<close> is the value of \<^verbatim>\<open>options.TLSCipherSuites\<close> after the TLS 1.3 block, which
  overwrites the field of the function's own copy of the options.
\<close>

definition GetTLSOptionOverrideFuncs ::
    "cliflag \<Rightarrow> TLSOptions \<Rightarrow> (mutator list \<times> error option) \<times> event list" where
  "GetTLSOptionOverrideFuncs lib options =
     (case GetTLSVersion (TLSMinVersion options) of
        (tlsMinVersion, Some err) \<Rightarrow> (([], Some err), [])
      | (tlsMinVersion, None) \<Rightarrow>
     (case GetTLSVersion (TLSMaxVersion options) of
        (tlsMaxVersion, Some err) \<Rightarrow> (([], Some err), [])
      | (tlsMaxVersion, None) \<Rightarrow>
     if tlsMaxVersion \<noteq> 0 \<and> tlsMinVersion > tlsMaxVersion
     then (([], Some (MinGreaterThanMax (TLSMinVersion options) (TLSMaxVersion options))), [])
     else
       let tlsOptions = [SetMinVersion tlsMinVersion, SetMaxVersion tlsMaxVersion];
           ignoring = (TLSMinVersion options = TLSVersion13 \<and>
                       TLSMaxVersion options = TLSVersion13 \<and>
                       TLSCipherSuites options \<noteq> []);
           logged = (if ignoring then [warnIgnoringCiphers] else []);
           ciphers = (if ignoring then [] else TLSCipherSuites options)
       in if ciphers \<noteq> []
          then
            let tlsCipherSuites = Split ciphers CHR '',''
            in (case cliflag_TLSCipherSuites lib tlsCipherSuites of
                  (suites, Some err) \<Rightarrow> (([], Some err), logged)
                | (suites, None) \<Rightarrow>
                    ((tlsOptions @ [SetCipherSuites suites], None),
                     logged @ insecureWarnings (InsecureTLSCipherNames lib) tlsCipherSuites))
          else ((tlsOptions, None), logged)))"

subsection \<open>The collaborators and the flags\<close>

text \<open>
  A function of \<^verbatim>\<open>main.go\<close> either returns or ends the process with \<^verbatim>\<open>os.Exit\<close>; with
  it come the events it produced, in order.
\<close>

datatype 'a outcome = Return 'a | Exit int

type_synonym 'a proc = "'a outcome \<times> event list"

text \<open>
  What the collaborators answer. \<open>GetConfigOrDie\<close> is \<open>False\<close> when the library finds no
  configuration and ends the process itself; both calls of the program get the same
  answer. \<open>ServerSupportsVersion env k\<close> is the error of the \<open>k\<close>-th call (from 0) of
  \<^verbatim>\<open>discovery.ServerSupportsVersion\<close>, \<open>None\<close> when the API group is found.
  \<open>SetupWithManager\<close> and \<open>SetupWebhookWithManager\<close> are the answers of the runtime to
  each registration; \<open>Start\<close> is what \<^verbatim>\<open>mgr.Start\<close> returns when the run loop ends.
\<close>

record env =
  logsValidateAndApply :: "error option"
  GetConfigOrDie :: bool
  cliflagLib :: cliflag
  NewManager :: "error option"
  NewDiscoveryClientForConfig :: "error option"
  ServerSupportsVersion :: "nat \<Rightarrow> error option"
  AddReadyzCheck :: "error option"
  AddHealthzCheck :: "error option"
  SetupWithManager :: "reconciler \<Rightarrow> int \<Rightarrow> error option"
  SetupWebhookWithManager :: "webhook \<Rightarrow> error option"
  Start :: "error option"

text \<open>The package-level variables, after the command line has been parsed.\<close>

record flags =
  waitForMetal3Controller :: bool
  metricsBindAddr :: string
  enableLeaderElection :: bool
  leaderElectionLeaseDuration :: int
  leaderElectionRenewDeadline :: int
  leaderElectionRetryPeriod :: int
  syncPeriod :: int
  metal3MachineConcurrency :: int
  metal3ClusterConcurrency :: int
  metal3DataTemplateConcurrency :: int
  metal3DataConcurrency :: int
  metal3LabelSyncConcurrency :: int
  metal3MachineTemplateConcurrency :: int
  metal3RemediationConcurrency :: int
  webhookPort :: int
  webhookCertDir :: string
  healthAddr :: string
  watchNamespace :: string
  watchFilterValue :: string
  enableBMHNameBasedPreallocation :: bool
  tlsOptions :: TLSOptions

text \<open>\<^verbatim>\<open>time.Duration\<close> counts nanoseconds.\<close>

definition Second :: int where
  "Second = 1000000000"

definition Minute :: int where
  "Minute = 60 * Second"

text \<open>
  The values of the variables when no flag is given: the defaults that \<^verbatim>\<open>initFlags\<close>
  registers and, for \<open>waitForMetal3Controller\<close>, which no flag is bound to, its initialiser.
\<close>

definition defaultFlags :: flags where
  "defaultFlags =
     \<lparr>waitForMetal3Controller = False,
      metricsBindAddr = ''localhost:8080'',
      enableLeaderElection = False,
      leaderElectionLeaseDuration = 15 * Second,
      leaderElectionRenewDeadline = 10 * Second,
      leaderElectionRetryPeriod = 2 * Second,
      syncPeriod = 10 * Minute,
      metal3MachineConcurrency = 1,
      metal3ClusterConcurrency = 10,
      metal3DataTemplateConcurrency = 10,
      metal3DataConcurrency = 10,
      metal3LabelSyncConcurrency = 10,
      metal3MachineTemplateConcurrency = 10,
      metal3RemediationConcurrency = 10,
      webhookPort = 9443,
      webhookCertDir = ''/tmp/k8s-webhook-server/serving-certs/'',
      healthAddr = '':9440'',
      watchNamespace = [],
      watchFilterValue = [],
      enableBMHNameBasedPreallocation = False,
      tlsOptions = \<lparr>TLSMaxVersion = ''TLS13'', TLSMinVersion = ''TLS12'', TLSCipherSuites = []\<rparr>\<rparr>"

subsection \<open>waitForAPIs\<close>

text \<open>
  The \<^verbatim>\<open>for\<close> loop has no exit but the \<^verbatim>\<open>break\<close> after a successful call, so it is a
  partial function: \<open>None\<close> is the loop that runs forever. \<open>n\<close> counts the calls made so
  far and \<open>t\<close> holds the events so far.
\<close>

partial_function (option) waitLoop ::
    "(nat \<Rightarrow> error option) \<Rightarrow> nat \<Rightarrow> event list \<Rightarrow> event list option" where
  "waitLoop supports n t =
     (case supports n of
        Some err \<Rightarrow>
          waitLoop supports (Suc n)
            (t @ [CallServerSupportsVersion, InfoWaitingForAPI err, Sleep (Second * 10)])
      | None \<Rightarrow> Some (t @ [CallServerSupportsVersion, InfoFoundAPI]))"

definition waitForAPIs :: "env \<Rightarrow> (error option \<times> event list) option" where
  "waitForAPIs env =
     (case NewDiscoveryClientForConfig env of
        Some err \<Rightarrow> Some (Some err, [CallNewDiscoveryClient])
      | None \<Rightarrow>
          (case waitLoop (ServerSupportsVersion env) 0 [CallNewDiscoveryClient] of
             None \<Rightarrow> None
           | Some t \<Rightarrow> Some (None, t)))"

text \<open>
  Reading a run: the number of calls of \<^verbatim>\<open>discovery.ServerSupportsVersion\<close>, the
  sleeps in order, and the events that only \<^verbatim>\<open>waitForAPIs\<close> produces.
\<close>

fun discoveryAttempts :: "event list \<Rightarrow> nat" where
  "discoveryAttempts [] = 0"
| "discoveryAttempts (CallServerSupportsVersion # es) = Suc (discoveryAttempts es)"
| "discoveryAttempts (e # es) = discoveryAttempts es"

fun sleeps :: "event list \<Rightarrow> int list" where
  "sleeps [] = []"
| "sleeps (Sleep d # es) = d # sleeps es"
| "sleeps (e # es) = sleeps es"

fun isGateEvent :: "event \<Rightarrow> bool" where
  "isGateEvent CallNewDiscoveryClient = True"
| "isGateEvent CallServerSupportsVersion = True"
| "isGateEvent (InfoWaitingForAPI err) = True"
| "isGateEvent InfoFoundAPI = True"
| "isGateEvent (Sleep d) = True"
| "isGateEvent e = False"

text \<open>One failed attempt: the call, the log line and the sleep of ten seconds.\<close>

definition failedAttempt :: "error \<Rightarrow> event list" where
  "failedAttempt err = [CallServerSupportsVersion, InfoWaitingForAPI err, Sleep (Second * 10)]"

text \<open>
  The events of \<^verbatim>\<open>waitForAPIs\<close> when the calls fail with \<open>errs\<close>, one after the other,
  and the next call finds the API group.
\<close>

definition foundAfter :: "error list \<Rightarrow> event list" where
  "foundAfter errs =
     CallNewDiscoveryClient # concat (map failedAttempt errs) @
       [CallServerSupportsVersion, InfoFoundAPI]"

subsection \<open>setupChecks, setupReconcilers, setupWebhooks\<close>

text \<open>Statement after statement: the second runs only if the first returned.\<close>

definition andThen :: "unit proc \<Rightarrow> unit proc \<Rightarrow> unit proc" where
  "andThen p q =
     (case p of
        (Exit code, t) \<Rightarrow> (Exit code, t)
      | (Return u, t) \<Rightarrow> (fst q, t @ snd q))"

definition setupChecks :: "env \<Rightarrow> unit proc" where
  "setupChecks env =
     andThen
       (case AddReadyzCheck env of
          Some err \<Rightarrow> (Exit 1, [CallAddReadyzCheck, LogError err ''unable to create ready check'' []])
        | None \<Rightarrow> (Return (), [CallAddReadyzCheck]))
       (case AddHealthzCheck env of
          Some err \<Rightarrow> (Exit 1, [CallAddHealthzCheck, LogError err ''unable to create health check'' []])
        | None \<Rightarrow> (Return (), [CallAddHealthzCheck]))"

text \<open>
  One \<^verbatim>\<open>if err := (...).SetupWithManager(ctx, mgr, concurrency(c)); err != nil\<close> block:
  the call, and on an error the log line with the block's name and \<^verbatim>\<open>os.Exit(1)\<close>.
\<close>

definition registerController :: "env \<Rightarrow> reconciler \<Rightarrow> int \<Rightarrow> string \<Rightarrow> unit proc" where
  "registerController env r c name =
     (case SetupWithManager env r c of
        Some err \<Rightarrow>
          (Exit 1, [CallSetupWithManager r c,
                    LogError err ''unable to create controller'' [''controller'', name]])
      | None \<Rightarrow> (Return (), [CallSetupWithManager r c]))"

definition setupReconcilers :: "flags \<Rightarrow> env \<Rightarrow> unit proc" where
  "setupReconcilers fl env =
     andThen (registerController env Metal3MachineReconciler
                (metal3MachineConcurrency fl) ''Metal3MachineReconciler'')
    (andThen (registerController env Metal3ClusterReconciler
                (metal3ClusterConcurrency fl) ''Metal3ClusterReconciler'')
    (andThen (registerController env Metal3DataTemplateReconciler
                (metal3DataTemplateConcurrency fl) ''Metal3DataTemplateReconciler'')
    (andThen (registerController env Metal3DataReconciler
                (metal3DataConcurrency fl) ''Metal3DataReconciler'')
    (andThen (registerController env Metal3LabelSyncReconciler
                (metal3LabelSyncConcurrency fl) ''Metal3LabelSyncReconciler'')
    (andThen (registerController env Metal3MachineTemplateReconciler
                (metal3MachineTemplateConcurrency fl) ''Metal3MachineTemplateReconciler'')
             (registerController env Metal3RemediationReconciler
                (metal3RemediationConcurrency fl) ''Metal3Remediation''))))))"

definition registerWebhook :: "env \<Rightarrow> webhook \<Rightarrow> string \<Rightarrow> unit proc" where
  "registerWebhook env w name =
     (case SetupWebhookWithManager env w of
        Some err \<Rightarrow>
          (Exit 1, [CallSetupWebhookWithManager w,
                    LogError err ''unable to create webhook'' [''webhook'', name]])
      | None \<Rightarrow> (Return (), [CallSetupWebhookWithManager w]))"

definition setupWebhooks :: "env \<Rightarrow> unit proc" where
  "setupWebhooks env =
     andThen (registerWebhook env Metal3Cluster ''Metal3Cluster'')
    (andThen (registerWebhook env Metal3Machine ''Metal3Machine'')
    (andThen (registerWebhook env Metal3MachineTemplate ''Metal3MachineTemplate'')
    (andThen (registerWebhook env Metal3DataTemplate ''Metal3DataTemplate'')
    (andThen (registerWebhook env Metal3Data ''Metal3Data'')
    (andThen (registerWebhook env Metal3DataClaim ''Metal3DataClaim'')
    (andThen (registerWebhook env Metal3Remediation ''Metal3Remediation'')
             (registerWebhook env Metal3RemediationTemplate ''Metal3RemediationTemplate'')))))))"

text \<open>The two registration sequences, and the registrations a run attempted.\<close>

definition reconcilerSequence :: "reconciler list" where
  "reconcilerSequence =
     [Metal3MachineReconciler, Metal3ClusterReconciler, Metal3DataTemplateReconciler,
      Metal3DataReconciler, Metal3LabelSyncReconciler, Metal3MachineTemplateReconciler,
      Metal3RemediationReconciler]"

definition webhookSequence :: "webhook list" where
  "webhookSequence =
     [Metal3Cluster, Metal3Machine, Metal3MachineTemplate, Metal3DataTemplate, Metal3Data,
      Metal3DataClaim, Metal3Remediation, Metal3RemediationTemplate]"

fun concurrencyOf :: "flags \<Rightarrow> reconciler \<Rightarrow> int" where
  "concurrencyOf fl Metal3MachineReconciler = metal3MachineConcurrency fl"
| "concurrencyOf fl Metal3ClusterReconciler = metal3ClusterConcurrency fl"
| "concurrencyOf fl Metal3DataTemplateReconciler = metal3DataTemplateConcurrency fl"
| "concurrencyOf fl Metal3DataReconciler = metal3DataConcurrency fl"
| "concurrencyOf fl Metal3LabelSyncReconciler = metal3LabelSyncConcurrency fl"
| "concurrencyOf fl Metal3MachineTemplateReconciler = metal3MachineTemplateConcurrency fl"
| "concurrencyOf fl Metal3RemediationReconciler = metal3RemediationConcurrency fl"

fun attemptedControllers :: "event list \<Rightarrow> reconciler list" where
  "attemptedControllers [] = []"
| "attemptedControllers (CallSetupWithManager r c # es) = r # attemptedControllers es"
| "attemptedControllers (e # es) = attemptedControllers es"

fun attemptedWebhooks :: "event list \<Rightarrow> webhook list" where
  "attemptedWebhooks [] = []"
| "attemptedWebhooks (CallSetupWebhookWithManager w # es) = w # attemptedWebhooks es"
| "attemptedWebhooks (e # es) = attemptedWebhooks es"

text \<open>
  The same two functions read as a loop over the sequence: the name each block logs, and
  a list of steps run one after the other until one ends the process.
\<close>

fun controllerName :: "reconciler \<Rightarrow> string" where
  "controllerName Metal3MachineReconciler = ''Metal3MachineReconciler''"
| "controllerName Metal3ClusterReconciler = ''Metal3ClusterReconciler''"
| "controllerName Metal3DataTemplateReconciler = ''Metal3DataTemplateReconciler''"
| "controllerName Metal3DataReconciler = ''Metal3DataReconciler''"
| "controllerName Metal3LabelSyncReconciler = ''Metal3LabelSyncReconciler''"
| "controllerName Metal3MachineTemplateReconciler = ''Metal3MachineTemplateReconciler''"
| "controllerName Metal3RemediationReconciler = ''Metal3Remediation''"

fun webhookName :: "webhook \<Rightarrow> string" where
  "webhookName Metal3Cluster = ''Metal3Cluster''"
| "webhookName Metal3Machine = ''Metal3Machine''"
| "webhookName Metal3MachineTemplate = ''Metal3MachineTemplate''"
| "webhookName Metal3DataTemplate = ''Metal3DataTemplate''"
| "webhookName Metal3Data = ''Metal3Data''"
| "webhookName Metal3DataClaim = ''Metal3DataClaim''"
| "webhookName Metal3Remediation = ''Metal3Remediation''"
| "webhookName Metal3RemediationTemplate = ''Metal3RemediationTemplate''"

fun runAll :: "unit proc list \<Rightarrow> unit proc" where
  "runAll [] = (Return (), [])"
| "runAll (p # ps) = andThen p (runAll ps)"

definition controllerStep :: "flags \<Rightarrow> env \<Rightarrow> reconciler \<Rightarrow> unit proc" where
  "controllerStep fl env r = registerController env r (concurrencyOf fl r) (controllerName r)"

definition webhookStep :: "env \<Rightarrow> webhook \<Rightarrow> unit proc" where
  "webhookStep env w = registerWebhook env w (webhookName w)"

subsection \<open>main\<close>

definition startManager :: "env \<Rightarrow> unit proc" where
  "startManager env =
     (case Start env of
        Some err \<Rightarrow>
          (Exit 1, [Info ''starting manager'', CallStart,
                    LogError err ''problem running manager'' []])
      | None \<Rightarrow> (Return (), [Info ''starting manager'', CallStart]))"

text \<open>
  \<open>None\<close> is the process that never leaves \<^verbatim>\<open>waitForAPIs\<close>. Returning from \<^verbatim>\<open>main\<close> is
  \<open>Return ()\<close>, which ends the process with status 0.
\<close>

definition main :: "flags \<Rightarrow> env \<Rightarrow> unit proc option" where
  "main fl env =
     (case logsValidateAndApply env of
        Some err \<Rightarrow> Some (Exit 1, [LogError err ''unable to start manager'' []])
      | None \<Rightarrow>
     if \<not> GetConfigOrDie env then Some (Exit 1, [CallGetConfig])
     else
     (case GetTLSOptionOverrideFuncs (cliflagLib env) (tlsOptions fl) of
        ((tlsOptionOverrides, Some err), logged) \<Rightarrow>
          Some (Exit 1, CallGetConfig # logged @
                  [LogError err ''unable to add TLS settings to the webhook server'' []])
      | ((tlsOptionOverrides, None), logged) \<Rightarrow>
     (case NewManager env of
        Some err \<Rightarrow>
          Some (Exit 1, CallGetConfig # logged @
                  [CallNewManager tlsOptionOverrides, LogError err ''unable to start manager'' []])
      | None \<Rightarrow>
     (case (if waitForMetal3Controller fl
            then (case waitForAPIs env of
                    None \<Rightarrow> None
                  | Some (err, t) \<Rightarrow> Some (err, CallGetConfig # t))
            else Some (None, [])) of
        None \<Rightarrow> None
      | Some (Some err, waited) \<Rightarrow>
          Some (Exit 1, CallGetConfig # logged @ [CallNewManager tlsOptionOverrides] @ waited @
                  [LogError err ''unable to discover required APIs'' []])
      | Some (None, waited) \<Rightarrow>
          Some
            (andThen
               (Return (), CallGetConfig # logged @ [CallNewManager tlsOptionOverrides] @ waited @
                  (if enableBMHNameBasedPreallocation fl then [SetBMHNameBasedPreallocation]
                   else []))
            (andThen (setupChecks env)
            (andThen (setupReconcilers fl env)
            (andThen (setupWebhooks env)
                     (startManager env)))))))))"

text \<open>
  Names for two parts of \<^verbatim>\<open>main\<close>: the events up to the construction of the manager
  when the steps before it succeed, and the statements after the call of \<^verbatim>\<open>waitForAPIs\<close>.
\<close>

definition beforeGate :: "flags \<Rightarrow> env \<Rightarrow> event list" where
  "beforeGate fl env =
     CallGetConfig # snd (GetTLSOptionOverrideFuncs (cliflagLib env) (tlsOptions fl)) @
       [CallNewManager (fst (fst (GetTLSOptionOverrideFuncs (cliflagLib env) (tlsOptions fl))))]"

definition preallocation :: "flags \<Rightarrow> event list" where
  "preallocation fl =
     (if enableBMHNameBasedPreallocation fl then [SetBMHNameBasedPreallocation] else [])"

definition afterGate :: "flags \<Rightarrow> env \<Rightarrow> unit proc" where
  "afterGate fl env =
     andThen (setupChecks env)
    (andThen (setupReconcilers fl env)
    (andThen (setupWebhooks env)
             (startManager env)))"

text \<open>A run without any event of \<^verbatim>\<open>waitForAPIs\<close>, and a run that reached the run loop.\<close>

definition noGateEvents :: "event list \<Rightarrow> bool" where
  "noGateEvents t = list_all (\<lambda>e. \<not> isGateEvent e) t"

definition reachesRunLoop :: "event list \<Rightarrow> bool" where
  "reachesRunLoop t = (CallStart \<in> set t)"

text \<open>
  The steps of \<^verbatim>\<open>main\<close> before the test of \<open>waitForMetal3Controller\<close> all succeed: the
  log options apply, a configuration is found, the TLS options are valid and the manager
  is constructed.
\<close>

definition reachesGateTest :: "flags \<Rightarrow> env \<Rightarrow> bool" where
  "reachesGateTest fl env =
     (logsValidateAndApply env = None \<and> GetConfigOrDie env \<and>
      snd (fst (GetTLSOptionOverrideFuncs (cliflagLib env) (tlsOptions fl))) = None \<and>
      NewManager env = None)"

subsection \<open>Example tables and collaborators\<close>

text \<open>Three rows of the cipher table of component-base, one of them insecure.\<close>

definition excerptLib :: cliflag where
  "excerptLib =
     \<lparr>allCiphers = [''TLS_AES_128_GCM_SHA256'' \<mapsto> 0x1301,
                     ''TLS_ECDHE_RSA_WITH_AES_128_GCM_SHA256'' \<mapsto> 0xc02f,
                     ''TLS_RSA_WITH_RC4_128_SHA'' \<mapsto> 0x0005],
      InsecureTLSCipherNames = [''TLS_RSA_WITH_RC4_128_SHA'']\<rparr>"

text \<open>
  Collaborators that accept everything; the API group is found at the third call of
  \<^verbatim>\<open>discovery.ServerSupportsVersion\<close>.
\<close>

definition notFound :: error where
  "notFound = ExternalError ''the server could not find the requested resource''"

definition workingEnv :: env where
  "workingEnv =
     \<lparr>logsValidateAndApply = None,
      GetConfigOrDie = True,
      cliflagLib = excerptLib,
      NewManager = None,
      NewDiscoveryClientForConfig = None,
      ServerSupportsVersion = (\<lambda>k. if k < 2 then Some notFound else None),
      AddReadyzCheck = None,
      AddHealthzCheck = None,
      SetupWithManager = (\<lambda>r c. None),
      SetupWebhookWithManager = (\<lambda>w. None),
      Start = None\<rparr>"

text \<open>
  A runtime that rejects the fourth reconciler and the second webhook, and a cluster in
  which the API group never appears.
\<close>

definition rejected :: error where
  "rejected = ExternalError ''no matches for kind''"

definition rejectingEnv :: env where
  "rejectingEnv =
     workingEnv
       \<lparr>SetupWithManager := (\<lambda>r c. if r = Metal3DataReconciler then Some rejected else None),
        SetupWebhookWithManager := (\<lambda>w. if w = Metal3Machine then Some rejected else None)\<rparr>"

definition neverFoundEnv :: env where
  "neverFoundEnv = workingEnv\<lparr>ServerSupportsVersion := (\<lambda>k. Some notFound)\<rparr>"

section \<open>Properties\<close>

subsection \<open>Resolving labels and cipher names\<close>

lemma GetTLSVersion_TLS12: "GetTLSVersion TLSVersion12 = (VersionTLS12, None)"
  by (simp add: GetTLSVersion_def)

lemma GetTLSVersion_TLS13: "GetTLSVersion TLSVersion13 = (VersionTLS13, None)"
  by (simp add: GetTLSVersion_def TLSVersion12_def TLSVersion13_def)

lemma GetTLSVersion_other:
  "version \<noteq> TLSVersion12 \<Longrightarrow> version \<noteq> TLSVersion13 \<Longrightarrow>
   GetTLSVersion version = (0, Some (UnexpectedTLSVersion version))"
  by (simp add: GetTLSVersion_def)

lemma GetTLSVersion_ok_iff:
  "snd (GetTLSVersion version) = None \<longleftrightarrow> version = TLSVersion12 \<or> version = TLSVersion13"
  by (simp add: GetTLSVersion_def)

lemma Version_order: "VersionTLS12 < VersionTLS13" "VersionTLS12 \<noteq> 0" "VersionTLS13 \<noteq> 0"
  by (simp_all add: VersionTLS12_def VersionTLS13_def)

lemma labels_differ: "TLSVersion12 \<noteq> TLSVersion13"
  by (simp add: TLSVersion12_def TLSVersion13_def)

lemma Split_not_Nil: "Split s sep \<noteq> []"
  by (induction s) (auto split: list.splits)

lemma cliflag_TLSCipherSuites_resolved:
  "\<forall>n \<in> set names. allCiphers lib n \<noteq> None \<Longrightarrow>
   cliflag_TLSCipherSuites lib names = (map (\<lambda>n. the (allCiphers lib n)) names, None)"
  by (induction names) auto

lemma cliflag_TLSCipherSuites_unresolved:
  "\<exists>n \<in> set names. allCiphers lib n = None \<Longrightarrow>
   \<exists>c \<in> set names. allCiphers lib c = None \<and>
     cliflag_TLSCipherSuites lib names = ([], Some (CipherSuiteNotSupported c))"
proof (induction names)
  case Nil
  then show ?case by simp
next
  case (Cons a names)
  show ?case
  proof (cases "allCiphers lib a")
    case None
    then show ?thesis by auto
  next
    case (Some v)
    with Cons.prems have "\<exists>n \<in> set names. allCiphers lib n = None" by auto
    from Cons.IH [OF this] Some show ?thesis by auto
  qed
qed

lemma cliflag_TLSCipherSuites_ok_iff:
  "snd (cliflag_TLSCipherSuites lib names) = None \<longleftrightarrow> (\<forall>n \<in> set names. allCiphers lib n \<noteq> None)"
proof (cases "\<forall>n \<in> set names. allCiphers lib n \<noteq> None")
  case True
  then show ?thesis by (simp add: cliflag_TLSCipherSuites_resolved)
next
  case False
  then have "\<exists>n \<in> set names. allCiphers lib n = None" by simp
  from cliflag_TLSCipherSuites_unresolved [OF this] False show ?thesis by auto
qed

lemma inner_warnings_distinct:
  "distinct ins \<Longrightarrow>
   concat (map (\<lambda>i. if i = c then [InfoInsecureCipher c] else []) ins) =
     (if c \<in> set ins then [InfoInsecureCipher c] else [])"
  by (induction ins) auto

lemma insecureWarnings_distinct:
  "distinct ins \<Longrightarrow>
   insecureWarnings ins names = map InfoInsecureCipher (filter (\<lambda>c. c \<in> set ins) names)"
  by (induction names) (simp_all add: insecureWarnings_def inner_warnings_distinct)

text \<open>The function once both labels are supported and in range.\<close>

lemma GetTLSOptionOverrideFuncs_valid:
  assumes "GetTLSVersion (TLSMinVersion options) = (vmin, None)"
    and "GetTLSVersion (TLSMaxVersion options) = (vmax, None)"
    and "\<not> (vmax \<noteq> 0 \<and> vmin > vmax)"
  shows "GetTLSOptionOverrideFuncs lib options =
     (if TLSMinVersion options = TLSVersion13 \<and> TLSMaxVersion options = TLSVersion13 \<and>
         TLSCipherSuites options \<noteq> []
      then (([SetMinVersion vmin, SetMaxVersion vmax], None), [warnIgnoringCiphers])
      else if TLSCipherSuites options = []
      then (([SetMinVersion vmin, SetMaxVersion vmax], None), [])
      else (case cliflag_TLSCipherSuites lib (Split (TLSCipherSuites options) CHR '','') of
              (suites, Some err) \<Rightarrow> (([], Some err), [])
            | (suites, None) \<Rightarrow>
                (([SetMinVersion vmin, SetMaxVersion vmax, SetCipherSuites suites], None),
                 insecureWarnings (InsecureTLSCipherNames lib)
                   (Split (TLSCipherSuites options) CHR '',''))))"
  using assms by (auto simp: GetTLSOptionOverrideFuncs_def Let_def split: prod.splits option.splits)

lemma GetTLSOptionOverrideFuncs_min_invalid:
  "GetTLSVersion (TLSMinVersion options) = (v, Some err) \<Longrightarrow>
   GetTLSOptionOverrideFuncs lib options = (([], Some err), [])"
  by (simp add: GetTLSOptionOverrideFuncs_def)

lemma GetTLSOptionOverrideFuncs_max_invalid:
  "GetTLSVersion (TLSMinVersion options) = (vmin, None) \<Longrightarrow>
   GetTLSVersion (TLSMaxVersion options) = (v, Some err) \<Longrightarrow>
   GetTLSOptionOverrideFuncs lib options = (([], Some err), [])"
  by (simp add: GetTLSOptionOverrideFuncs_def)

lemma GetTLSOptionOverrideFuncs_inverted:
  "GetTLSVersion (TLSMinVersion options) = (vmin, None) \<Longrightarrow>
   GetTLSVersion (TLSMaxVersion options) = (vmax, None) \<Longrightarrow>
   vmax \<noteq> 0 \<Longrightarrow> vmin > vmax \<Longrightarrow>
   GetTLSOptionOverrideFuncs lib options =
     (([], Some (MinGreaterThanMax (TLSMinVersion options) (TLSMaxVersion options))), [])"
  by (simp add: GetTLSOptionOverrideFuncs_def)

lemma GetTLSVersion_range:
  "GetTLSVersion version = (VersionTLS12, None) \<or> GetTLSVersion version = (VersionTLS13, None) \<or>
   GetTLSVersion version = (0, Some (UnexpectedTLSVersion version))"
  by (simp add: GetTLSVersion_def)

lemma GetTLSVersion_None_nonzero: "GetTLSVersion version = (v, None) \<Longrightarrow> v \<noteq> 0"
  using Version_order by (auto simp: GetTLSVersion_def split: if_splits)

lemma GetTLSOptionOverrideFuncs_success_versions:
  assumes "GetTLSOptionOverrideFuncs lib options = ((ms, None), log)"
  shows "snd (GetTLSVersion (TLSMinVersion options)) = None"
    and "snd (GetTLSVersion (TLSMaxVersion options)) = None"
    and "fst (GetTLSVersion (TLSMinVersion options)) \<le> fst (GetTLSVersion (TLSMaxVersion options))"
proof -
  obtain vmin emin where mn: "GetTLSVersion (TLSMinVersion options) = (vmin, emin)"
    by (cases "GetTLSVersion (TLSMinVersion options)")
  obtain vmax emax where mx: "GetTLSVersion (TLSMaxVersion options) = (vmax, emax)"
    by (cases "GetTLSVersion (TLSMaxVersion options)")
  from assms mn have emin: "emin = None"
    by (cases emin) (simp_all add: GetTLSOptionOverrideFuncs_min_invalid)
  from assms mn mx emin have emax: "emax = None"
    by (cases emax) (simp_all add: GetTLSOptionOverrideFuncs_max_invalid)
  have nz: "vmax \<noteq> 0" using mx emax GetTLSVersion_None_nonzero by simp
  have "\<not> vmin > vmax"
  proof
    assume "vmin > vmax"
    with mn mx emin emax nz assms show False
      by (simp add: GetTLSOptionOverrideFuncs_inverted)
  qed
  with mn mx emin emax show "snd (GetTLSVersion (TLSMinVersion options)) = None"
    and "snd (GetTLSVersion (TLSMaxVersion options)) = None"
    and "fst (GetTLSVersion (TLSMinVersion options)) \<le> fst (GetTLSVersion (TLSMaxVersion options))"
    by simp_all
qed

lemma insecureWarnings_only_warnings:
  "e \<in> set (insecureWarnings ins names) \<Longrightarrow> \<exists>c. e = InfoInsecureCipher c"
  by (auto simp: insecureWarnings_def split: if_splits)

lemma GetTLSVersion_fst_snd:
  "snd (GetTLSVersion version) = None \<Longrightarrow>
   GetTLSVersion version = (fst (GetTLSVersion version), None)"
  by (cases "GetTLSVersion version") simp

lemma cliflag_TLSCipherSuites_resolved_ids:
  assumes "\<forall>n \<in> set names. allCiphers lib n \<noteq> None"
  shows "map (allCiphers lib) names = map Some (fst (cliflag_TLSCipherSuites lib names))"
  using assms by (simp add: cliflag_TLSCipherSuites_resolved comp_def)

lemma GetTLSVersion_error_shape:
  "GetTLSVersion version = (v, Some err) \<Longrightarrow> v = 0 \<and> err = UnexpectedTLSVersion version"
  by (auto simp: GetTLSVersion_def split: if_splits)

lemma cliflag_TLSCipherSuites_error_shape:
  "cliflag_TLSCipherSuites lib names = (ids, Some err) \<Longrightarrow> \<exists>c. err = CipherSuiteNotSupported c"
  using cliflag_TLSCipherSuites_unresolved [of names lib] cliflag_TLSCipherSuites_ok_iff [of lib names]
  by (cases "\<forall>n \<in> set names. allCiphers lib n \<noteq> None") auto

text \<open>The error of the function, by cases on the two labels.\<close>

lemma GetTLSOptionOverrideFuncs_error_cases:
  "snd (fst (GetTLSOptionOverrideFuncs lib options)) =
     (if snd (GetTLSVersion (TLSMinVersion options)) \<noteq> None
      then Some (UnexpectedTLSVersion (TLSMinVersion options))
      else if snd (GetTLSVersion (TLSMaxVersion options)) \<noteq> None
      then Some (UnexpectedTLSVersion (TLSMaxVersion options))
      else if fst (GetTLSVersion (TLSMinVersion options)) > fst (GetTLSVersion (TLSMaxVersion options))
      then Some (MinGreaterThanMax (TLSMinVersion options) (TLSMaxVersion options))
      else if TLSCipherSuites options = [] \<or>
              (TLSMinVersion options = TLSVersion13 \<and> TLSMaxVersion options = TLSVersion13)
      then None
      else snd (cliflag_TLSCipherSuites lib (Split (TLSCipherSuites options) CHR '','')))"
proof -
  obtain vmin emin where mn: "GetTLSVersion (TLSMinVersion options) = (vmin, emin)"
    by (cases "GetTLSVersion (TLSMinVersion options)")
  obtain vmax emax where mx: "GetTLSVersion (TLSMaxVersion options) = (vmax, emax)"
    by (cases "GetTLSVersion (TLSMaxVersion options)")
  show ?thesis
  proof (cases emin)
    case (Some e)
    with mn GetTLSVersion_error_shape [of "TLSMinVersion options" vmin e]
    show ?thesis by (simp add: GetTLSOptionOverrideFuncs_min_invalid)
  next
    case None
    note emin = this
    show ?thesis
    proof (cases emax)
      case (Some e)
      with mn mx emin GetTLSVersion_error_shape [of "TLSMaxVersion options" vmax e]
      show ?thesis by (simp add: GetTLSOptionOverrideFuncs_max_invalid)
    next
      case None
      have nz: "vmax \<noteq> 0" using mx None GetTLSVersion_None_nonzero by simp
      show ?thesis
      proof (cases "vmin > vmax")
        case True
        with mn mx emin None nz show ?thesis
          by (simp add: GetTLSOptionOverrideFuncs_inverted)
      next
        case False
        then have "\<not> (vmax \<noteq> 0 \<and> vmin > vmax)" by simp
        from GetTLSOptionOverrideFuncs_valid [OF mn [unfolded emin] mx [unfolded None] this, of lib]
          mn mx emin None False
        show ?thesis by (auto split: prod.splits option.splits)
      qed
    qed
  qed
qed

lemma GetTLSVersion_nonzero_iff:
  "fst (GetTLSVersion version) \<noteq> 0 \<longleftrightarrow> snd (GetTLSVersion version) = None"
  using Version_order by (simp add: GetTLSVersion_def)

lemma range_error_iff:
  "snd (fst (GetTLSOptionOverrideFuncs lib options)) = Some (MinGreaterThanMax a b) \<longleftrightarrow>
      TLSMinVersion options = a \<and> TLSMaxVersion options = b \<and>
      snd (GetTLSVersion (TLSMinVersion options)) = None \<and>
      snd (GetTLSVersion (TLSMaxVersion options)) = None \<and>
      fst (GetTLSVersion (TLSMinVersion options)) > fst (GetTLSVersion (TLSMaxVersion options))"
proof -
  have cs: "snd (cliflag_TLSCipherSuites lib names) \<noteq> Some (MinGreaterThanMax a b)" for names
    using cliflag_TLSCipherSuites_error_shape [of lib names "fst (cliflag_TLSCipherSuites lib names)"
        "MinGreaterThanMax a b"]
    by (cases "cliflag_TLSCipherSuites lib names") auto
  have "snd (fst (GetTLSOptionOverrideFuncs lib options)) = Some (MinGreaterThanMax a b) \<longleftrightarrow>
      snd (GetTLSVersion (TLSMinVersion options)) = None \<and>
      snd (GetTLSVersion (TLSMaxVersion options)) = None \<and>
      fst (GetTLSVersion (TLSMinVersion options)) > fst (GetTLSVersion (TLSMaxVersion options)) \<and>
      TLSMinVersion options = a \<and> TLSMaxVersion options = b"
    unfolding GetTLSOptionOverrideFuncs_error_cases
    using cs [of "Split (TLSCipherSuites options) CHR '',''"] by simp
  then show ?thesis by blast
qed

subsection \<open>The transport-security policy\<close>

text \<open>
  C10. For every string, \<open>GetTLSVersion\<close> returns the identifier of TLS 1.2 or of TLS 1.3,
  both non-zero, with no error, or 0 with an error; never 0 with no error. So whenever
  \<open>GetTLSOptionOverrideFuncs\<close> succeeds, the resolved maximum version is non-zero, the
  second mutator sets it, and a configuration the list was applied to has that non-zero
  maximum version.
\<close>

theorem GetTLSVersion_zero_only_with_error:
  "(GetTLSVersion version = (VersionTLS12, None) \<or>
    GetTLSVersion version = (VersionTLS13, None) \<or>
    GetTLSVersion version = (0, Some (UnexpectedTLSVersion version))) \<and>
   VersionTLS12 \<noteq> 0 \<and> VersionTLS13 \<noteq> 0 \<and>
   GetTLSVersion version \<noteq> (0, None) \<and>
   (GetTLSOptionOverrideFuncs lib options = ((ms, None), log) \<longrightarrow>
      fst (GetTLSVersion (TLSMaxVersion options)) \<noteq> 0 \<and>
      ms ! 1 = SetMaxVersion (fst (GetTLSVersion (TLSMaxVersion options))) \<and>
      MaxVersion (applyAll ms cfg) = fst (GetTLSVersion (TLSMaxVersion options)) \<and>
      MaxVersion (applyAll ms cfg) \<noteq> 0)"
proof -
  have a: "GetTLSVersion version \<noteq> (0, None)"
    using GetTLSVersion_None_nonzero [of version 0] by blast
  have b: "fst (GetTLSVersion (TLSMaxVersion options)) \<noteq> 0 \<and>
      ms ! 1 = SetMaxVersion (fst (GetTLSVersion (TLSMaxVersion options))) \<and>
      MaxVersion (applyAll ms cfg) = fst (GetTLSVersion (TLSMaxVersion options)) \<and>
      MaxVersion (applyAll ms cfg) \<noteq> 0"
    if ok: "GetTLSOptionOverrideFuncs lib options = ((ms, None), log)"
  proof -
    obtain vmin where mn: "GetTLSVersion (TLSMinVersion options) = (vmin, None)"
      using GetTLSOptionOverrideFuncs_success_versions(1) [OF ok]
      by (cases "GetTLSVersion (TLSMinVersion options)") simp
    obtain vmax where mx: "GetTLSVersion (TLSMaxVersion options) = (vmax, None)"
      using GetTLSOptionOverrideFuncs_success_versions(2) [OF ok]
      by (cases "GetTLSVersion (TLSMaxVersion options)") simp
    have le: "\<not> (vmax \<noteq> 0 \<and> vmin > vmax)"
      using GetTLSOptionOverrideFuncs_success_versions(3) [OF ok] mn mx by (simp add: not_less)
    have nz: "vmax \<noteq> 0" using mx by (rule GetTLSVersion_None_nonzero)
    from ok GetTLSOptionOverrideFuncs_valid [OF mn mx le, of lib]
    have "ms = [SetMinVersion vmin, SetMaxVersion vmax] \<or>
          (\<exists>suites. ms = [SetMinVersion vmin, SetMaxVersion vmax, SetCipherSuites suites])"
      by (auto split: if_splits prod.splits option.splits)
    then show ?thesis using mx nz by (auto simp: applyAll_def)
  qed
  show ?thesis using GetTLSVersion_range [of version] Version_order a b by blast
qed

theorem GetTLSVersion_zero_only_with_error_witness:
  "GetTLSOptionOverrideFuncs excerptLib
     \<lparr>TLSMaxVersion = ''TLS13'', TLSMinVersion = ''TLS12'', TLSCipherSuites = ''''\<rparr> =
     (([SetMinVersion 0x0303, SetMaxVersion 0x0304], None), []) \<and>
   MaxVersion (applyAll [SetMinVersion 0x0303, SetMaxVersion 0x0304]
     \<lparr>MinVersion = 0, MaxVersion = 0, CipherSuites = []\<rparr>) = 0x0304 \<and>
   GetTLSVersion ''TLS11'' = (0, Some (UnexpectedTLSVersion ''TLS11''))"
  using GetTLSVersion_zero_only_with_error
    [of "''TLS11''" excerptLib
        "\<lparr>TLSMaxVersion = ''TLS13'', TLSMinVersion = ''TLS12'', TLSCipherSuites = ''''\<rparr>"
        "[SetMinVersion 0x0303, SetMaxVersion 0x0304]" "[]"
        "\<lparr>MinVersion = 0, MaxVersion = 0, CipherSuites = []\<rparr>"]
  by (simp add: GetTLSOptionOverrideFuncs_def GetTLSVersion_def TLSVersion12_def TLSVersion13_def
      VersionTLS12_def VersionTLS13_def applyAll_def)

text \<open>
  C1, as it is stated for every pair of supported labels, fails for a pair in range
  when the cipher list holds a name the registry does not know: with (TLS12, TLS13) and
  the cipher list \<^verbatim>\<open>TLS_FOO\<close> the function returns the unknown-cipher-suite error.
\<close>

theorem supported_labels_cipher_counterexample:
  "TLSMinVersion \<lparr>TLSMaxVersion = ''TLS13'', TLSMinVersion = ''TLS12'', TLSCipherSuites = ''TLS_FOO''\<rparr>
     \<in> {TLSVersion12, TLSVersion13} \<and>
   TLSMaxVersion \<lparr>TLSMaxVersion = ''TLS13'', TLSMinVersion = ''TLS12'', TLSCipherSuites = ''TLS_FOO''\<rparr>
     \<in> {TLSVersion12, TLSVersion13} \<and>
   fst (GetTLSVersion ''TLS12'') \<le> fst (GetTLSVersion ''TLS13'') \<and>
   GetTLSOptionOverrideFuncs excerptLib
     \<lparr>TLSMaxVersion = ''TLS13'', TLSMinVersion = ''TLS12'', TLSCipherSuites = ''TLS_FOO''\<rparr> =
     (([], Some (CipherSuiteNotSupported ''TLS_FOO'')), [])"
  by (simp add: GetTLSOptionOverrideFuncs_def GetTLSVersion_def TLSVersion12_def TLSVersion13_def
      VersionTLS12_def VersionTLS13_def excerptLib_def)

text \<open>
  C1, amended. For both labels supported, the function succeeds exactly when the resolved
  minimum is at most the resolved maximum and the cipher list that is left is empty, is
  discarded (both labels TLS13), or has only names that resolve; it fails with the range
  error exactly when the resolved minimum is greater than the resolved maximum, whatever
  the cipher list. (TLS13, TLS12) fails with the range error; (TLS12, TLS13) with no cipher
  list succeeds.
\<close>

theorem supported_labels_succeed_iff:
  assumes "TLSMinVersion options \<in> {TLSVersion12, TLSVersion13}"
    and "TLSMaxVersion options \<in> {TLSVersion12, TLSVersion13}"
  shows "(snd (fst (GetTLSOptionOverrideFuncs lib options)) = None \<longleftrightarrow>
            fst (GetTLSVersion (TLSMinVersion options)) \<le> fst (GetTLSVersion (TLSMaxVersion options)) \<and>
            (TLSCipherSuites options = [] \<or>
             (TLSMinVersion options = TLSVersion13 \<and> TLSMaxVersion options = TLSVersion13) \<or>
             (\<forall>n \<in> set (Split (TLSCipherSuites options) CHR '',''). allCiphers lib n \<noteq> None))) \<and>
         (snd (fst (GetTLSOptionOverrideFuncs lib options)) =
            Some (MinGreaterThanMax (TLSMinVersion options) (TLSMaxVersion options)) \<longleftrightarrow>
            \<not> fst (GetTLSVersion (TLSMinVersion options)) \<le> fst (GetTLSVersion (TLSMaxVersion options))) \<and>
         (TLSMinVersion options = TLSVersion13 \<and> TLSMaxVersion options = TLSVersion12 \<longrightarrow>
            GetTLSOptionOverrideFuncs lib options =
              (([], Some (MinGreaterThanMax TLSVersion13 TLSVersion12)), [])) \<and>
         (TLSMinVersion options = TLSVersion12 \<and> TLSMaxVersion options = TLSVersion13 \<and>
          TLSCipherSuites options = [] \<longrightarrow>
            GetTLSOptionOverrideFuncs lib options =
              (([SetMinVersion VersionTLS12, SetMaxVersion VersionTLS13], None), []))"
proof -
  have mn: "snd (GetTLSVersion (TLSMinVersion options)) = None"
    using assms(1) by (simp add: GetTLSVersion_ok_iff)
  have mx: "snd (GetTLSVersion (TLSMaxVersion options)) = None"
    using assms(2) by (simp add: GetTLSVersion_ok_iff)
  note ec = GetTLSOptionOverrideFuncs_error_cases [of lib options]
  have cs: "snd (cliflag_TLSCipherSuites lib names) \<noteq> Some (MinGreaterThanMax a b)" for names a b
    using cliflag_TLSCipherSuites_error_shape [of lib names "fst (cliflag_TLSCipherSuites lib names)"
        "MinGreaterThanMax a b"]
    by (cases "cliflag_TLSCipherSuites lib names") auto
  have first: "snd (fst (GetTLSOptionOverrideFuncs lib options)) = None \<longleftrightarrow>
            fst (GetTLSVersion (TLSMinVersion options)) \<le> fst (GetTLSVersion (TLSMaxVersion options)) \<and>
            (TLSCipherSuites options = [] \<or>
             (TLSMinVersion options = TLSVersion13 \<and> TLSMaxVersion options = TLSVersion13) \<or>
             (\<forall>n \<in> set (Split (TLSCipherSuites options) CHR '',''). allCiphers lib n \<noteq> None))"
    unfolding ec using mn mx by (auto simp: not_less cliflag_TLSCipherSuites_ok_iff)
  have second: "snd (fst (GetTLSOptionOverrideFuncs lib options)) =
            Some (MinGreaterThanMax (TLSMinVersion options) (TLSMaxVersion options)) \<longleftrightarrow>
            \<not> fst (GetTLSVersion (TLSMinVersion options)) \<le> fst (GetTLSVersion (TLSMaxVersion options))"
    unfolding ec using mn mx cs [of "Split (TLSCipherSuites options) CHR '',''"] by (auto simp: not_less)
  have third: "GetTLSOptionOverrideFuncs lib options =
              (([], Some (MinGreaterThanMax TLSVersion13 TLSVersion12)), [])"
    if "TLSMinVersion options = TLSVersion13 \<and> TLSMaxVersion options = TLSVersion12"
    using that Version_order
      GetTLSOptionOverrideFuncs_inverted [of options VersionTLS13 VersionTLS12 lib]
    by (simp add: GetTLSVersion_TLS12 GetTLSVersion_TLS13)
  have fourth: "GetTLSOptionOverrideFuncs lib options =
              (([SetMinVersion VersionTLS12, SetMaxVersion VersionTLS13], None), [])"
    if "TLSMinVersion options = TLSVersion12 \<and> TLSMaxVersion options = TLSVersion13 \<and>
          TLSCipherSuites options = []"
  proof -
    have "\<not> (VersionTLS13 \<noteq> 0 \<and> VersionTLS12 > VersionTLS13)"
      using Version_order by (simp add: not_less less_imp_le)
    from GetTLSOptionOverrideFuncs_valid [of options VersionTLS12 VersionTLS13 lib, OF _ _ this] that
    show ?thesis by (simp add: GetTLSVersion_TLS12 GetTLSVersion_TLS13 labels_differ)
  qed
  from first second third fourth show ?thesis by blast
qed

theorem supported_labels_succeed_iff_witness:
  "GetTLSOptionOverrideFuncs excerptLib
     \<lparr>TLSMaxVersion = ''TLS13'', TLSMinVersion = ''TLS12'', TLSCipherSuites = ''''\<rparr> =
     (([SetMinVersion VersionTLS12, SetMaxVersion VersionTLS13], None), []) \<and>
   GetTLSOptionOverrideFuncs excerptLib
     \<lparr>TLSMaxVersion = ''TLS12'', TLSMinVersion = ''TLS13'', TLSCipherSuites = ''TLS_FOO''\<rparr> =
     (([], Some (MinGreaterThanMax ''TLS13'' ''TLS12'')), [])"
  using supported_labels_succeed_iff
    [of "\<lparr>TLSMaxVersion = ''TLS13'', TLSMinVersion = ''TLS12'', TLSCipherSuites = ''''\<rparr>" excerptLib]
    supported_labels_succeed_iff
    [of "\<lparr>TLSMaxVersion = ''TLS12'', TLSMinVersion = ''TLS13'', TLSCipherSuites = ''TLS_FOO''\<rparr>" excerptLib]
  by (simp add: TLSVersion12_def TLSVersion13_def)

text \<open>
  C2. With minimum and maximum label TLS13 and a non-empty cipher string, the function
  succeeds, returns the two version mutators and no cipher-suite mutator, and writes the
  warning that the ciphers are ignored.
\<close>

theorem tls13_only_discards_ciphers:
  assumes "TLSMinVersion options = TLSVersion13"
    and "TLSMaxVersion options = TLSVersion13"
    and "TLSCipherSuites options \<noteq> []"
  shows "GetTLSOptionOverrideFuncs lib options =
           (([SetMinVersion VersionTLS13, SetMaxVersion VersionTLS13], None),
            [warnIgnoringCiphers]) \<and>
         snd (fst (GetTLSOptionOverrideFuncs lib options)) = None \<and>
         \<not> list_ex isCipherMutator (fst (fst (GetTLSOptionOverrideFuncs lib options))) \<and>
         warnIgnoringCiphers \<in> set (snd (GetTLSOptionOverrideFuncs lib options))"
proof -
  have mn: "GetTLSVersion (TLSMinVersion options) = (VersionTLS13, None)"
    using assms(1) by (simp add: GetTLSVersion_TLS13)
  have mx: "GetTLSVersion (TLSMaxVersion options) = (VersionTLS13, None)"
    using assms(2) by (simp add: GetTLSVersion_TLS13)
  have "\<not> (VersionTLS13 \<noteq> 0 \<and> VersionTLS13 > VersionTLS13)" by simp
  from GetTLSOptionOverrideFuncs_valid [OF mn mx this, of lib] assms
  have "GetTLSOptionOverrideFuncs lib options =
           (([SetMinVersion VersionTLS13, SetMaxVersion VersionTLS13], None),
            [warnIgnoringCiphers])"
    by simp
  then show ?thesis by simp
qed

theorem tls13_only_discards_ciphers_witness:
  "GetTLSOptionOverrideFuncs excerptLib
     \<lparr>TLSMaxVersion = ''TLS13'', TLSMinVersion = ''TLS13'',
      TLSCipherSuites = ''TLS_AES_128_GCM_SHA256''\<rparr> =
     (([SetMinVersion 0x0304, SetMaxVersion 0x0304], None),
      [Info ''warning: Cipher suites should not be set for TLS version 1.3. Ignoring ciphers''])"
  using tls13_only_discards_ciphers
    [of "\<lparr>TLSMaxVersion = ''TLS13'', TLSMinVersion = ''TLS13'',
          TLSCipherSuites = ''TLS_AES_128_GCM_SHA256''\<rparr>" excerptLib]
  by (simp add: TLSVersion13_def VersionTLS13_def warnIgnoringCiphers_def)

text \<open>
  C5. The function fails with the range error, built from the two labels, exactly when both
  labels resolve and the resolved minimum is greater than the resolved maximum; in terms
  of the values alone, exactly when the resolved maximum is not 0 and the resolved minimum
  is greater than it. When the maximum label resolves to 0 the range error never occurs,
  for any minimum label: 0 only comes with the error of \<open>GetTLSVersion\<close>, which is returned
  first.
\<close>

theorem range_inverted_iff:
  "(snd (fst (GetTLSOptionOverrideFuncs lib options)) =
      Some (MinGreaterThanMax (TLSMinVersion options) (TLSMaxVersion options)) \<longleftrightarrow>
    snd (GetTLSVersion (TLSMinVersion options)) = None \<and>
    snd (GetTLSVersion (TLSMaxVersion options)) = None \<and>
    fst (GetTLSVersion (TLSMinVersion options)) > fst (GetTLSVersion (TLSMaxVersion options))) \<and>
   (snd (fst (GetTLSOptionOverrideFuncs lib options)) =
      Some (MinGreaterThanMax (TLSMinVersion options) (TLSMaxVersion options)) \<longleftrightarrow>
    fst (GetTLSVersion (TLSMaxVersion options)) \<noteq> 0 \<and>
    fst (GetTLSVersion (TLSMinVersion options)) > fst (GetTLSVersion (TLSMaxVersion options))) \<and>
   (\<forall>a b. snd (fst (GetTLSOptionOverrideFuncs lib options)) = Some (MinGreaterThanMax a b) \<longrightarrow>
      a = TLSMinVersion options \<and> b = TLSMaxVersion options) \<and>
   (fst (GetTLSVersion (TLSMaxVersion options)) = 0 \<longrightarrow>
      (\<forall>a b. snd (fst (GetTLSOptionOverrideFuncs lib options)) \<noteq> Some (MinGreaterThanMax a b)))"
proof (intro conjI allI impI)
  show "snd (fst (GetTLSOptionOverrideFuncs lib options)) =
      Some (MinGreaterThanMax (TLSMinVersion options) (TLSMaxVersion options)) \<longleftrightarrow>
    snd (GetTLSVersion (TLSMinVersion options)) = None \<and>
    snd (GetTLSVersion (TLSMaxVersion options)) = None \<and>
    fst (GetTLSVersion (TLSMinVersion options)) > fst (GetTLSVersion (TLSMaxVersion options))"
    by (simp add: range_error_iff)
next
  have "fst (GetTLSVersion (TLSMinVersion options)) \<noteq> 0"
    if "fst (GetTLSVersion (TLSMinVersion options)) > fst (GetTLSVersion (TLSMaxVersion options))"
    using that by (auto simp: word_gt_0)
  then show "snd (fst (GetTLSOptionOverrideFuncs lib options)) =
      Some (MinGreaterThanMax (TLSMinVersion options) (TLSMaxVersion options)) \<longleftrightarrow>
    fst (GetTLSVersion (TLSMaxVersion options)) \<noteq> 0 \<and>
    fst (GetTLSVersion (TLSMinVersion options)) > fst (GetTLSVersion (TLSMaxVersion options))"
    using GetTLSVersion_nonzero_iff [of "TLSMinVersion options"]
      GetTLSVersion_nonzero_iff [of "TLSMaxVersion options"]
      range_error_iff [of lib options "TLSMinVersion options" "TLSMaxVersion options"]
    by auto
next
  fix a b
  assume "snd (fst (GetTLSOptionOverrideFuncs lib options)) = Some (MinGreaterThanMax a b)"
  then show "a = TLSMinVersion options" by (simp add: range_error_iff)
next
  fix a b
  assume "snd (fst (GetTLSOptionOverrideFuncs lib options)) = Some (MinGreaterThanMax a b)"
  then show "b = TLSMaxVersion options" by (simp add: range_error_iff)
next
  fix a b
  assume z: "fst (GetTLSVersion (TLSMaxVersion options)) = 0"
  show "snd (fst (GetTLSOptionOverrideFuncs lib options)) \<noteq> Some (MinGreaterThanMax a b)"
  proof
    assume "snd (fst (GetTLSOptionOverrideFuncs lib options)) = Some (MinGreaterThanMax a b)"
    then have "snd (GetTLSVersion (TLSMaxVersion options)) = None"
      using range_error_iff [of lib options a b] by blast
    with z show False using GetTLSVersion_nonzero_iff [of "TLSMaxVersion options"] by simp
  qed
qed

theorem range_inverted_iff_witness:
  "GetTLSOptionOverrideFuncs excerptLib
     \<lparr>TLSMaxVersion = ''TLS12'', TLSMinVersion = ''TLS13'', TLSCipherSuites = ''''\<rparr> =
     (([], Some (MinGreaterThanMax ''TLS13'' ''TLS12'')), []) \<and>
   fst (GetTLSVersion ''TLS13'') > fst (GetTLSVersion ''TLS12'') \<and>
   fst (GetTLSVersion '''') = 0 \<and>
   GetTLSOptionOverrideFuncs excerptLib
     \<lparr>TLSMaxVersion = '''', TLSMinVersion = ''TLS13'', TLSCipherSuites = ''''\<rparr> =
     (([], Some (UnexpectedTLSVersion '''')), [])"
proof -
  have "GetTLSOptionOverrideFuncs excerptLib
     \<lparr>TLSMaxVersion = ''TLS12'', TLSMinVersion = ''TLS13'', TLSCipherSuites = ''''\<rparr> =
     (([], Some (MinGreaterThanMax ''TLS13'' ''TLS12'')), [])"
    by (simp add: GetTLSOptionOverrideFuncs_def GetTLSVersion_def TLSVersion12_def TLSVersion13_def
      VersionTLS12_def VersionTLS13_def)
  moreover have "fst (GetTLSVersion ''TLS13'') > fst (GetTLSVersion ''TLS12'')"
    using range_inverted_iff
      [of excerptLib "\<lparr>TLSMaxVersion = ''TLS12'', TLSMinVersion = ''TLS13'', TLSCipherSuites = ''''\<rparr>"]
      calculation
    by simp
  moreover have "fst (GetTLSVersion '''') = 0"
    by (simp add: GetTLSVersion_def TLSVersion12_def TLSVersion13_def)
  moreover have "GetTLSOptionOverrideFuncs excerptLib
     \<lparr>TLSMaxVersion = '''', TLSMinVersion = ''TLS13'', TLSCipherSuites = ''''\<rparr> =
     (([], Some (UnexpectedTLSVersion '''')), [])"
    by (simp add: GetTLSOptionOverrideFuncs_def GetTLSVersion_def TLSVersion12_def TLSVersion13_def
      VersionTLS12_def VersionTLS13_def)
  ultimately show ?thesis by blast
qed

text \<open>
  C7. If the minimum or the maximum label is not one of the two supported labels, the
  function fails with the invalid-version error for the first such label (minimum before
  maximum), returns no mutators and writes nothing to the log.
\<close>

theorem unsupported_label_fails:
  assumes "TLSMinVersion options \<notin> {TLSVersion12, TLSVersion13} \<or>
           TLSMaxVersion options \<notin> {TLSVersion12, TLSVersion13}"
  shows "GetTLSOptionOverrideFuncs lib options =
           (([], Some (UnexpectedTLSVersion
                   (if TLSMinVersion options \<notin> {TLSVersion12, TLSVersion13}
                    then TLSMinVersion options else TLSMaxVersion options))), [])"
proof (cases "TLSMinVersion options \<in> {TLSVersion12, TLSVersion13}")
  case False
  then have "GetTLSVersion (TLSMinVersion options) =
      (0, Some (UnexpectedTLSVersion (TLSMinVersion options)))"
    by (simp add: GetTLSVersion_other)
  then have "GetTLSOptionOverrideFuncs lib options =
      (([], Some (UnexpectedTLSVersion (TLSMinVersion options))), [])"
    by (rule GetTLSOptionOverrideFuncs_min_invalid)
  with False show ?thesis by simp
next
  case True
  with assms have mx: "TLSMaxVersion options \<notin> {TLSVersion12, TLSVersion13}" by blast
  from True obtain vmin where "GetTLSVersion (TLSMinVersion options) = (vmin, None)"
    using GetTLSVersion_TLS12 GetTLSVersion_TLS13 by auto
  moreover from mx have "GetTLSVersion (TLSMaxVersion options) =
      (0, Some (UnexpectedTLSVersion (TLSMaxVersion options)))"
    by (simp add: GetTLSVersion_other)
  ultimately have "GetTLSOptionOverrideFuncs lib options =
      (([], Some (UnexpectedTLSVersion (TLSMaxVersion options))), [])"
    by (rule GetTLSOptionOverrideFuncs_max_invalid)
  with True show ?thesis by simp
qed

theorem unsupported_label_fails_witness:
  "''TLS11'' \<notin> {TLSVersion12, TLSVersion13} \<and>
   GetTLSOptionOverrideFuncs excerptLib
     \<lparr>TLSMaxVersion = ''TLS13'', TLSMinVersion = ''TLS11'', TLSCipherSuites = ''''\<rparr> =
     (([], Some (UnexpectedTLSVersion ''TLS11'')), [])"
  using unsupported_label_fails
    [of "\<lparr>TLSMaxVersion = ''TLS13'', TLSMinVersion = ''TLS11'', TLSCipherSuites = ''''\<rparr>"
        excerptLib]
  by (simp add: TLSVersion12_def TLSVersion13_def)

text \<open>
  C8, as it is stated, fails when an insecure name comes with a name that does not
  resolve: with (TLS12, TLS13) and the cipher list
  \<^verbatim>\<open>TLS_RSA_WITH_RC4_128_SHA,TLS_FOO\<close> the first name resolves and is insecure, yet the
  function returns the unknown-cipher-suite error before the loop that warns, and the log
  is empty.
\<close>

theorem insecure_name_before_unknown_name_counterexample:
  "GetTLSVersion ''TLS12'' = (VersionTLS12, None) \<and>
   GetTLSVersion ''TLS13'' = (VersionTLS13, None) \<and>
   VersionTLS12 \<le> VersionTLS13 \<and>
   Split ''TLS_RSA_WITH_RC4_128_SHA,TLS_FOO'' CHR '','' = [''TLS_RSA_WITH_RC4_128_SHA'', ''TLS_FOO''] \<and>
   allCiphers excerptLib ''TLS_RSA_WITH_RC4_128_SHA'' = Some 0x0005 \<and>
   ''TLS_RSA_WITH_RC4_128_SHA'' \<in> set (InsecureTLSCipherNames excerptLib) \<and>
   GetTLSOptionOverrideFuncs excerptLib
     \<lparr>TLSMaxVersion = ''TLS13'', TLSMinVersion = ''TLS12'',
      TLSCipherSuites = ''TLS_RSA_WITH_RC4_128_SHA,TLS_FOO''\<rparr> =
     (([], Some (CipherSuiteNotSupported ''TLS_FOO'')), []) \<and>
   InfoInsecureCipher ''TLS_RSA_WITH_RC4_128_SHA'' \<notin>
     set (snd (GetTLSOptionOverrideFuncs excerptLib
       \<lparr>TLSMaxVersion = ''TLS13'', TLSMinVersion = ''TLS12'',
        TLSCipherSuites = ''TLS_RSA_WITH_RC4_128_SHA,TLS_FOO''\<rparr>))"
  by (simp add: GetTLSOptionOverrideFuncs_def GetTLSVersion_def TLSVersion12_def TLSVersion13_def
      VersionTLS12_def VersionTLS13_def excerptLib_def)

text \<open>
  C8, amended. Once both labels resolve, the range is in order and a non-empty cipher list
  is left (not both labels TLS13): if a comma-separated name does not resolve, the function
  fails with the unknown-cipher-suite error for such a name and writes no warning; if all
  names resolve it succeeds with the cipher-suite mutator of their identifiers, whether or
  not names are insecure, and the log is the insecure-cipher warnings, one for each
  occurrence of an insecure name when the insecure names are listed once each.
\<close>

theorem cipher_names_resolved_or_rejected:
  assumes "GetTLSVersion (TLSMinVersion options) = (vmin, None)"
    and "GetTLSVersion (TLSMaxVersion options) = (vmax, None)"
    and "vmin \<le> vmax"
    and "TLSCipherSuites options \<noteq> []"
    and "\<not> (TLSMinVersion options = TLSVersion13 \<and> TLSMaxVersion options = TLSVersion13)"
  shows "((\<exists>n \<in> set (Split (TLSCipherSuites options) CHR '',''). allCiphers lib n = None) \<longrightarrow>
            (\<exists>c \<in> set (Split (TLSCipherSuites options) CHR '',''). allCiphers lib c = None \<and>
               GetTLSOptionOverrideFuncs lib options =
                 (([], Some (CipherSuiteNotSupported c)), []))) \<and>
         ((\<forall>n \<in> set (Split (TLSCipherSuites options) CHR '',''). allCiphers lib n \<noteq> None) \<longrightarrow>
            map (allCiphers lib) (Split (TLSCipherSuites options) CHR '','') =
              map Some (fst (cliflag_TLSCipherSuites lib (Split (TLSCipherSuites options) CHR '',''))) \<and>
            GetTLSOptionOverrideFuncs lib options =
              (([SetMinVersion vmin, SetMaxVersion vmax,
                 SetCipherSuites
                   (fst (cliflag_TLSCipherSuites lib (Split (TLSCipherSuites options) CHR '','')))],
                None),
               insecureWarnings (InsecureTLSCipherNames lib)
                 (Split (TLSCipherSuites options) CHR '',''))) \<and>
         (distinct (InsecureTLSCipherNames lib) \<longrightarrow>
            insecureWarnings (InsecureTLSCipherNames lib) (Split (TLSCipherSuites options) CHR '','') =
              map InfoInsecureCipher
                (filter (\<lambda>c. c \<in> set (InsecureTLSCipherNames lib))
                   (Split (TLSCipherSuites options) CHR '','')))"
proof -
  let ?names = "Split (TLSCipherSuites options) CHR '',''"
  have le: "\<not> (vmax \<noteq> 0 \<and> vmin > vmax)"
    using assms(3) by (simp add: not_less)
  from GetTLSOptionOverrideFuncs_valid [OF assms(1) assms(2) le, of lib] assms(4) assms(5)
  have eq: "GetTLSOptionOverrideFuncs lib options =
      (case cliflag_TLSCipherSuites lib ?names of
         (suites, Some err) \<Rightarrow> (([], Some err), [])
       | (suites, None) \<Rightarrow>
           (([SetMinVersion vmin, SetMaxVersion vmax, SetCipherSuites suites], None),
            insecureWarnings (InsecureTLSCipherNames lib) ?names))"
    by auto
  have a: "\<exists>c \<in> set ?names. allCiphers lib c = None \<and>
               GetTLSOptionOverrideFuncs lib options = (([], Some (CipherSuiteNotSupported c)), [])"
    if "\<exists>n \<in> set ?names. allCiphers lib n = None"
  proof -
    from cliflag_TLSCipherSuites_unresolved [OF that]
    obtain c where "c \<in> set ?names" "allCiphers lib c = None"
      "cliflag_TLSCipherSuites lib ?names = ([], Some (CipherSuiteNotSupported c))"
      by blast
    with eq show ?thesis by auto
  qed
  have b: "map (allCiphers lib) ?names = map Some (fst (cliflag_TLSCipherSuites lib ?names)) \<and>
           GetTLSOptionOverrideFuncs lib options =
             (([SetMinVersion vmin, SetMaxVersion vmax,
                SetCipherSuites (fst (cliflag_TLSCipherSuites lib ?names))], None),
              insecureWarnings (InsecureTLSCipherNames lib) ?names)"
    if r: "\<forall>n \<in> set ?names. allCiphers lib n \<noteq> None"
  proof -
    have "cliflag_TLSCipherSuites lib ?names =
        (fst (cliflag_TLSCipherSuites lib ?names), None)"
      using r by (simp add: cliflag_TLSCipherSuites_resolved)
    with eq have "GetTLSOptionOverrideFuncs lib options =
        (([SetMinVersion vmin, SetMaxVersion vmax,
           SetCipherSuites (fst (cliflag_TLSCipherSuites lib ?names))], None),
         insecureWarnings (InsecureTLSCipherNames lib) ?names)"
      by (metis (no_types, lifting) case_prod_conv option.simps(4))
    with cliflag_TLSCipherSuites_resolved_ids [OF r] show ?thesis by blast
  qed
  from a b insecureWarnings_distinct show ?thesis by blast
qed

theorem cipher_names_resolved_or_rejected_witness:
  "GetTLSOptionOverrideFuncs excerptLib
     \<lparr>TLSMaxVersion = ''TLS13'', TLSMinVersion = ''TLS12'',
      TLSCipherSuites = ''TLS_RSA_WITH_RC4_128_SHA,TLS_AES_128_GCM_SHA256,TLS_RSA_WITH_RC4_128_SHA''\<rparr> =
     (([SetMinVersion VersionTLS12, SetMaxVersion VersionTLS13,
        SetCipherSuites [0x0005, 0x1301, 0x0005]], None),
      [InfoInsecureCipher ''TLS_RSA_WITH_RC4_128_SHA'',
       InfoInsecureCipher ''TLS_RSA_WITH_RC4_128_SHA''])"
  using cipher_names_resolved_or_rejected
    [of "\<lparr>TLSMaxVersion = ''TLS13'', TLSMinVersion = ''TLS12'',
          TLSCipherSuites = ''TLS_RSA_WITH_RC4_128_SHA,TLS_AES_128_GCM_SHA256,TLS_RSA_WITH_RC4_128_SHA''\<rparr>"
        VersionTLS12 VersionTLS13 excerptLib]
  by (simp add: GetTLSVersion_def TLSVersion12_def TLSVersion13_def
      VersionTLS12_def VersionTLS13_def excerptLib_def insecureWarnings_def)

text \<open>
  C9. On success the list is the minimum-version mutator, the maximum-version mutator and,
  exactly when a non-empty cipher list is left, the cipher-suite mutator of the resolved
  identifiers, in this order. Applying the list to a configuration sets these fields to
  the resolved values. The call itself only writes warnings to the log; it is given no
  configuration and applies nothing.
\<close>

theorem mutators_in_order:
  assumes "GetTLSOptionOverrideFuncs lib options = ((ms, None), log)"
  shows "snd (GetTLSVersion (TLSMinVersion options)) = None \<and>
         snd (GetTLSVersion (TLSMaxVersion options)) = None \<and>
         (if TLSCipherSuites options = [] \<or>
             (TLSMinVersion options = TLSVersion13 \<and> TLSMaxVersion options = TLSVersion13)
          then ms = [SetMinVersion (fst (GetTLSVersion (TLSMinVersion options))),
                     SetMaxVersion (fst (GetTLSVersion (TLSMaxVersion options)))] \<and>
               applyAll ms cfg =
                 cfg\<lparr>MinVersion := fst (GetTLSVersion (TLSMinVersion options)),
                     MaxVersion := fst (GetTLSVersion (TLSMaxVersion options))\<rparr>
          else snd (cliflag_TLSCipherSuites lib (Split (TLSCipherSuites options) CHR '','')) = None \<and>
               ms = [SetMinVersion (fst (GetTLSVersion (TLSMinVersion options))),
                     SetMaxVersion (fst (GetTLSVersion (TLSMaxVersion options))),
                     SetCipherSuites
                       (fst (cliflag_TLSCipherSuites lib (Split (TLSCipherSuites options) CHR '','')))] \<and>
               applyAll ms cfg =
                 cfg\<lparr>MinVersion := fst (GetTLSVersion (TLSMinVersion options)),
                     MaxVersion := fst (GetTLSVersion (TLSMaxVersion options)),
                     CipherSuites :=
                       fst (cliflag_TLSCipherSuites lib (Split (TLSCipherSuites options) CHR '',''))\<rparr>) \<and>
         (\<forall>e \<in> set log. e = warnIgnoringCiphers \<or> (\<exists>c. e = InfoInsecureCipher c))"
proof -
  note sv = GetTLSOptionOverrideFuncs_success_versions [OF assms]
  have mn: "GetTLSVersion (TLSMinVersion options) = (fst (GetTLSVersion (TLSMinVersion options)), None)"
    using sv(1) by (rule GetTLSVersion_fst_snd)
  have mx: "GetTLSVersion (TLSMaxVersion options) = (fst (GetTLSVersion (TLSMaxVersion options)), None)"
    using sv(2) by (rule GetTLSVersion_fst_snd)
  have le: "\<not> (fst (GetTLSVersion (TLSMaxVersion options)) \<noteq> 0 \<and>
              fst (GetTLSVersion (TLSMinVersion options)) > fst (GetTLSVersion (TLSMaxVersion options)))"
    using sv(3) by (simp add: not_less)
  note eq = GetTLSOptionOverrideFuncs_valid [OF mn mx le, of lib]
  show ?thesis
  proof (cases "TLSCipherSuites options = [] \<or>
             (TLSMinVersion options = TLSVersion13 \<and> TLSMaxVersion options = TLSVersion13)")
    case True
    with eq assms have "ms = [SetMinVersion (fst (GetTLSVersion (TLSMinVersion options))),
                     SetMaxVersion (fst (GetTLSVersion (TLSMaxVersion options)))]"
      and "log = [] \<or> log = [warnIgnoringCiphers]"
      by (auto split: if_splits)
    with True sv show ?thesis by (auto simp: applyAll_def)
  next
    case False
    obtain suites err where r:
      "cliflag_TLSCipherSuites lib (Split (TLSCipherSuites options) CHR '','') = (suites, err)"
      by (cases "cliflag_TLSCipherSuites lib (Split (TLSCipherSuites options) CHR '','')")
    from False eq assms r have e: "err = None"
      by (cases err) auto
    from False eq assms r e
    have "ms = [SetMinVersion (fst (GetTLSVersion (TLSMinVersion options))),
                SetMaxVersion (fst (GetTLSVersion (TLSMaxVersion options))),
                SetCipherSuites suites]"
      and "log = insecureWarnings (InsecureTLSCipherNames lib) (Split (TLSCipherSuites options) CHR '','')"
      by auto
    with False sv r e show ?thesis
      by (auto simp: applyAll_def dest: insecureWarnings_only_warnings)
  qed
qed

theorem mutators_in_order_witness:
  "GetTLSOptionOverrideFuncs excerptLib
     \<lparr>TLSMaxVersion = ''TLS13'', TLSMinVersion = ''TLS12'',
      TLSCipherSuites = ''TLS_RSA_WITH_RC4_128_SHA,TLS_AES_128_GCM_SHA256''\<rparr> =
     (([SetMinVersion 0x0303, SetMaxVersion 0x0304, SetCipherSuites [0x0005, 0x1301]], None),
      [InfoInsecureCipher ''TLS_RSA_WITH_RC4_128_SHA'']) \<and>
   applyAll [SetMinVersion 0x0303, SetMaxVersion 0x0304, SetCipherSuites [0x0005, 0x1301]]
     \<lparr>MinVersion = 0, MaxVersion = 0, CipherSuites = []\<rparr> =
     \<lparr>MinVersion = 0x0303, MaxVersion = 0x0304, CipherSuites = [0x0005, 0x1301]\<rparr>"
  using mutators_in_order
    [of excerptLib
        "\<lparr>TLSMaxVersion = ''TLS13'', TLSMinVersion = ''TLS12'',
          TLSCipherSuites = ''TLS_RSA_WITH_RC4_128_SHA,TLS_AES_128_GCM_SHA256''\<rparr>"
        "[SetMinVersion 0x0303, SetMaxVersion 0x0304, SetCipherSuites [0x0005, 0x1301]]"
        "[InfoInsecureCipher ''TLS_RSA_WITH_RC4_128_SHA'']"
        "\<lparr>MinVersion = 0, MaxVersion = 0, CipherSuites = []\<rparr>"]
  by (simp add: GetTLSOptionOverrideFuncs_def GetTLSVersion_def TLSVersion12_def TLSVersion13_def
      VersionTLS12_def VersionTLS13_def applyAll_def excerptLib_def insecureWarnings_def)

subsection \<open>Waiting for the API group\<close>

lemma waitLoop_found:
  "(\<forall>i < length errs. supports (n + i) = Some (errs ! i)) \<Longrightarrow>
   supports (n + length errs) = None \<Longrightarrow>
   waitLoop supports n t =
     Some (t @ concat (map failedAttempt errs) @ [CallServerSupportsVersion, InfoFoundAPI])"
proof (induction errs arbitrary: n t)
  case Nil
  then show ?case by (subst waitLoop.simps) simp
next
  case (Cons e errs)
  from Cons.prems(1) have h: "supports n = Some e" by force
  have a: "\<forall>i < length errs. supports (Suc n + i) = Some (errs ! i)"
  proof (intro allI impI)
    fix i assume "i < length errs"
    then have "Suc i < length (e # errs)" by simp
    with Cons.prems(1) have "supports (n + Suc i) = Some ((e # errs) ! Suc i)" by blast
    then show "supports (Suc n + i) = Some (errs ! i)" by simp
  qed
  have b: "supports (Suc n + length errs) = None" using Cons.prems(2) by simp
  have "waitLoop supports n t = waitLoop supports (Suc n) (t @ failedAttempt e)"
    using h by (subst waitLoop.simps) (simp add: failedAttempt_def)
  also have "\<dots> = Some ((t @ failedAttempt e) @ concat (map failedAttempt errs) @
      [CallServerSupportsVersion, InfoFoundAPI])"
    by (rule Cons.IH [OF a b])
  finally show ?case by simp
qed

lemma waitLoop_returns_found:
  assumes "waitLoop supports n t = Some t'"
  shows "\<exists>k \<ge> n. supports k = None"
proof (rule waitLoop.raw_induct [where P = "\<lambda>s n t y. \<exists>k \<ge> n. s k = None", OF _ assms])
  fix loop :: "(nat \<Rightarrow> error option) \<Rightarrow> nat \<Rightarrow> event list \<Rightarrow> event list option"
    and s :: "nat \<Rightarrow> error option" and n :: nat and t y :: "event list"
  assume IH: "\<And>s n t y. loop s n t = Some y \<Longrightarrow> \<exists>k \<ge> n. s k = None"
    and step: "(case s n of
        None \<Rightarrow> Some (t @ [CallServerSupportsVersion, InfoFoundAPI])
      | Some err \<Rightarrow>
          loop s (Suc n)
            (t @ [CallServerSupportsVersion, InfoWaitingForAPI err, Sleep (Second * 10)])) = Some y"
  show "\<exists>k \<ge> n. s k = None"
  proof (cases "s n")
    case None
    then show ?thesis by blast
  next
    case (Some e)
    with step have "loop s (Suc n)
        (t @ [CallServerSupportsVersion, InfoWaitingForAPI e, Sleep (Second * 10)]) = Some y"
      by simp
    from IH [OF this] obtain k where "k \<ge> Suc n" "s k = None" by blast
    then show ?thesis by (intro exI [of _ k]) simp
  qed
qed

lemma waitLoop_forever:
  "\<forall>k \<ge> n. supports k \<noteq> None \<Longrightarrow> waitLoop supports n t = None"
  using waitLoop_returns_found [of supports n t] by (cases "waitLoop supports n t") auto


lemma discoveryAttempts_append:
  "discoveryAttempts (xs @ ys) = discoveryAttempts xs + discoveryAttempts ys"
  by (induction xs rule: discoveryAttempts.induct) simp_all

lemma sleeps_append: "sleeps (xs @ ys) = sleeps xs @ sleeps ys"
  by (induction xs rule: sleeps.induct) simp_all

lemma discoveryAttempts_failed:
  "discoveryAttempts (concat (map failedAttempt errs)) = length errs"
  by (induction errs) (simp_all add: failedAttempt_def)

lemma sleeps_failed:
  "sleeps (concat (map failedAttempt errs)) = replicate (length errs) (Second * 10)"
  by (induction errs) (simp_all add: failedAttempt_def)

lemma discoveryAttempts_foundAfter: "discoveryAttempts (foundAfter errs) = Suc (length errs)"
  by (simp add: foundAfter_def discoveryAttempts_append discoveryAttempts_failed)

lemma sleeps_foundAfter: "sleeps (foundAfter errs) = replicate (length errs) (Second * 10)"
  by (simp add: foundAfter_def sleeps_append sleeps_failed)

lemma waitForAPIs_found:
  assumes "NewDiscoveryClientForConfig env = None"
    and "\<forall>i < length errs. ServerSupportsVersion env i = Some (errs ! i)"
    and "ServerSupportsVersion env (length errs) = None"
  shows "waitForAPIs env = Some (None, foundAfter errs)"
proof -
  have "waitLoop (ServerSupportsVersion env) 0 [CallNewDiscoveryClient] =
      Some ([CallNewDiscoveryClient] @ concat (map failedAttempt errs) @
        [CallServerSupportsVersion, InfoFoundAPI])"
    using assms(2,3) by (intro waitLoop_found) simp_all
  with assms(1) show ?thesis by (simp add: waitForAPIs_def foundAfter_def)
qed

lemma waitForAPIs_forever:
  assumes "NewDiscoveryClientForConfig env = None"
    and "\<forall>k. ServerSupportsVersion env k \<noteq> None"
  shows "waitForAPIs env = None"
proof -
  have "waitLoop (ServerSupportsVersion env) 0 [CallNewDiscoveryClient] = None"
    using assms(2) by (intro waitLoop_forever) simp
  with assms(1) show ?thesis by (simp add: waitForAPIs_def)
qed

text \<open>
  C3. Once the discovery client exists, \<^verbatim>\<open>waitForAPIs\<close> calls discovery, returns nil at
  once when a call succeeds, and after a failed call logs, sleeps ten seconds and calls
  again, with no bound on the number of calls. If the first \<open>n\<close> calls fail and the next
  one succeeds, it returns nil after exactly \<open>n + 1\<close> calls and \<open>n\<close> sleeps of ten seconds,
  one after each failed call; if no call ever succeeds it never returns; and whenever it
  returns, some call has succeeded.
\<close>

theorem waitForAPIs_retries_until_found:
  assumes "NewDiscoveryClientForConfig env = None"
  shows "((\<forall>i < length errs. ServerSupportsVersion env i = Some (errs ! i)) \<and>
          ServerSupportsVersion env (length errs) = None \<longrightarrow>
            waitForAPIs env = Some (None, foundAfter errs) \<and>
            discoveryAttempts (foundAfter errs) = Suc (length errs) \<and>
            sleeps (foundAfter errs) = replicate (length errs) (Second * 10)) \<and>
         ((\<forall>k. ServerSupportsVersion env k \<noteq> None) \<longrightarrow> waitForAPIs env = None) \<and>
         (\<forall>r. waitForAPIs env = Some r \<longrightarrow>
            fst r = None \<and> (\<exists>k. ServerSupportsVersion env k = None))"
proof (intro conjI impI allI)
  assume "(\<forall>i < length errs. ServerSupportsVersion env i = Some (errs ! i)) \<and>
          ServerSupportsVersion env (length errs) = None"
  then show "waitForAPIs env = Some (None, foundAfter errs)"
    using assms by (simp add: waitForAPIs_found)
next
  show "discoveryAttempts (foundAfter errs) = Suc (length errs)"
    by (rule discoveryAttempts_foundAfter)
next
  show "sleeps (foundAfter errs) = replicate (length errs) (Second * 10)"
    by (rule sleeps_foundAfter)
next
  assume "\<forall>k. ServerSupportsVersion env k \<noteq> None"
  with assms show "waitForAPIs env = None" by (rule waitForAPIs_forever)
next
  fix r assume r: "waitForAPIs env = Some r"
  then show "fst r = None"
    using assms by (auto simp: waitForAPIs_def split: option.splits)
  from r assms obtain t where "waitLoop (ServerSupportsVersion env) 0 [CallNewDiscoveryClient] = Some t"
    by (auto simp: waitForAPIs_def split: option.splits)
  from waitLoop_returns_found [OF this] show "\<exists>k. ServerSupportsVersion env k = None" by blast
qed

theorem waitForAPIs_retries_until_found_witness:
  "waitForAPIs workingEnv =
     Some (None,
       [CallNewDiscoveryClient,
        CallServerSupportsVersion, InfoWaitingForAPI notFound, Sleep 10000000000,
        CallServerSupportsVersion, InfoWaitingForAPI notFound, Sleep 10000000000,
        CallServerSupportsVersion, InfoFoundAPI]) \<and>
   discoveryAttempts (foundAfter [notFound, notFound]) = 3 \<and>
   sleeps (foundAfter [notFound, notFound]) = [10000000000, 10000000000] \<and>
   waitForAPIs (workingEnv\<lparr>ServerSupportsVersion := \<lambda>k. Some notFound\<rparr>) = None"
  using waitForAPIs_retries_until_found [of workingEnv "[notFound, notFound]"]
    waitForAPIs_retries_until_found
      [of "workingEnv\<lparr>ServerSupportsVersion := \<lambda>k. Some notFound\<rparr>" "[]"]
  by (simp add: workingEnv_def foundAfter_def failedAttempt_def Second_def less_Suc_eq)

subsection \<open>The two registries\<close>

lemma andThen_Return [simp]: "andThen (Return u, t) q = (fst q, t @ snd q)"
  by (simp add: andThen_def)

lemma andThen_Exit [simp]: "andThen (Exit c, t) q = (Exit c, t)"
  by (simp add: andThen_def)

lemma andThen_skip: "andThen p (Return (), []) = p"
  by (cases p; cases "fst p") (auto simp: andThen_def)

lemma setupReconcilers_runAll:
  "setupReconcilers fl env = runAll (map (controllerStep fl env) reconcilerSequence)"
  by (simp add: setupReconcilers_def reconcilerSequence_def controllerStep_def andThen_skip)

lemma setupWebhooks_runAll:
  "setupWebhooks env = runAll (map (webhookStep env) webhookSequence)"
  by (simp add: setupWebhooks_def webhookSequence_def webhookStep_def andThen_skip)

lemma controllerStep_ok:
  "SetupWithManager env r (concurrencyOf fl r) = None \<Longrightarrow>
   controllerStep fl env r = (Return (), [CallSetupWithManager r (concurrencyOf fl r)])"
  by (simp add: controllerStep_def registerController_def)

lemma controllerStep_failed:
  "SetupWithManager env r (concurrencyOf fl r) = Some err \<Longrightarrow>
   controllerStep fl env r =
     (Exit 1, [CallSetupWithManager r (concurrencyOf fl r),
               LogError err ''unable to create controller'' [''controller'', controllerName r]])"
  by (simp add: controllerStep_def registerController_def)

lemma webhookStep_ok:
  "SetupWebhookWithManager env w = None \<Longrightarrow>
   webhookStep env w = (Return (), [CallSetupWebhookWithManager w])"
  by (simp add: webhookStep_def registerWebhook_def)

lemma webhookStep_failed:
  "SetupWebhookWithManager env w = Some err \<Longrightarrow>
   webhookStep env w =
     (Exit 1, [CallSetupWebhookWithManager w,
               LogError err ''unable to create webhook'' [''webhook'', webhookName w]])"
  by (simp add: webhookStep_def registerWebhook_def)

lemma controllers_all_ok:
  "\<forall>r \<in> set rs. SetupWithManager env r (concurrencyOf fl r) = None \<Longrightarrow>
   runAll (map (controllerStep fl env) rs) =
     (Return (), map (\<lambda>r. CallSetupWithManager r (concurrencyOf fl r)) rs)"
  by (induction rs) (simp_all add: controllerStep_ok)

lemma controllers_first_failure:
  "i < length rs \<Longrightarrow> SetupWithManager env (rs ! i) (concurrencyOf fl (rs ! i)) \<noteq> None \<Longrightarrow>
   \<exists>k \<le> i. SetupWithManager env (rs ! k) (concurrencyOf fl (rs ! k)) \<noteq> None \<and>
     (\<forall>j < k. SetupWithManager env (rs ! j) (concurrencyOf fl (rs ! j)) = None) \<and>
     fst (runAll (map (controllerStep fl env) rs)) = Exit 1 \<and>
     attemptedControllers (snd (runAll (map (controllerStep fl env) rs))) = take (Suc k) rs"
proof (induction rs arbitrary: i)
  case Nil
  then show ?case by simp
next
  case (Cons r rs)
  show ?case
  proof (cases "SetupWithManager env r (concurrencyOf fl r)")
    case (Some err)
    then show ?thesis
      by (intro exI [of _ 0]) (simp add: controllerStep_failed)
  next
    case None
    with Cons.prems obtain i' where i: "i = Suc i'"
      by (cases i) auto
    with Cons.prems have "i' < length rs"
      and "SetupWithManager env (rs ! i') (concurrencyOf fl (rs ! i')) \<noteq> None"
      by simp_all
    from Cons.IH [OF this] obtain k where k: "k \<le> i'"
      "SetupWithManager env (rs ! k) (concurrencyOf fl (rs ! k)) \<noteq> None"
      "\<forall>j < k. SetupWithManager env (rs ! j) (concurrencyOf fl (rs ! j)) = None"
      "fst (runAll (map (controllerStep fl env) rs)) = Exit 1"
      "attemptedControllers (snd (runAll (map (controllerStep fl env) rs))) = take (Suc k) rs"
      by blast
    have "\<forall>j < Suc k. SetupWithManager env ((r # rs) ! j) (concurrencyOf fl ((r # rs) ! j)) = None"
      using k(3) None by (auto simp: less_Suc_eq_0_disj)
    with k i None show ?thesis
      by (intro exI [of _ "Suc k"]) (simp add: controllerStep_ok)
  qed
qed

lemma webhooks_all_ok:
  "\<forall>w \<in> set ws. SetupWebhookWithManager env w = None \<Longrightarrow>
   runAll (map (webhookStep env) ws) = (Return (), map CallSetupWebhookWithManager ws)"
  by (induction ws) (simp_all add: webhookStep_ok)

lemma webhooks_first_failure:
  "i < length ws \<Longrightarrow> SetupWebhookWithManager env (ws ! i) \<noteq> None \<Longrightarrow>
   \<exists>k \<le> i. SetupWebhookWithManager env (ws ! k) \<noteq> None \<and>
     (\<forall>j < k. SetupWebhookWithManager env (ws ! j) = None) \<and>
     fst (runAll (map (webhookStep env) ws)) = Exit 1 \<and>
     attemptedWebhooks (snd (runAll (map (webhookStep env) ws))) = take (Suc k) ws"
proof (induction ws arbitrary: i)
  case Nil
  then show ?case by simp
next
  case (Cons w ws)
  show ?case
  proof (cases "SetupWebhookWithManager env w")
    case (Some err)
    then show ?thesis
      by (intro exI [of _ 0]) (simp add: webhookStep_failed)
  next
    case None
    with Cons.prems obtain i' where i: "i = Suc i'"
      by (cases i) auto
    with Cons.prems have "i' < length ws" and "SetupWebhookWithManager env (ws ! i') \<noteq> None"
      by simp_all
    from Cons.IH [OF this] obtain k where k: "k \<le> i'"
      "SetupWebhookWithManager env (ws ! k) \<noteq> None"
      "\<forall>j < k. SetupWebhookWithManager env (ws ! j) = None"
      "fst (runAll (map (webhookStep env) ws)) = Exit 1"
      "attemptedWebhooks (snd (runAll (map (webhookStep env) ws))) = take (Suc k) ws"
      by blast
    have "\<forall>j < Suc k. SetupWebhookWithManager env ((w # ws) ! j) = None"
      using k(3) None by (auto simp: less_Suc_eq_0_disj)
    with k i None show ?thesis
      by (intro exI [of _ "Suc k"]) (simp add: webhookStep_ok)
  qed
qed

subsection \<open>Sequencing and the runs of main\<close>

lemma fst_andThen:
  "fst (andThen p q) = (case fst p of Exit c \<Rightarrow> Exit c | Return u \<Rightarrow> fst q)"
  by (cases p; cases "fst p") (auto simp: andThen_def)

lemma snd_andThen:
  "snd (andThen p q) = (case fst p of Exit c \<Rightarrow> snd p | Return u \<Rightarrow> snd p @ snd q)"
  by (cases p; cases "fst p") (auto simp: andThen_def)

lemma andThen_returns_iff:
  "fst (andThen p q) = Return () \<longleftrightarrow> fst p = Return () \<and> fst q = Return ()"
  by (cases "fst p") (simp_all add: fst_andThen)

lemma andThen_exit_code:
  "fst (andThen p q) = Exit c \<Longrightarrow> fst p = Exit c \<or> fst q = Exit c"
  by (cases "fst p") (simp_all add: fst_andThen)

lemma andThen_event:
  "e \<in> set (snd (andThen p q)) \<Longrightarrow>
   e \<in> set (snd p) \<or> (fst p = Return () \<and> e \<in> set (snd q))"
  by (cases "fst p") (auto simp: snd_andThen)

lemma noGateEvents_iff: "noGateEvents t \<longleftrightarrow> (\<forall>e \<in> set t. \<not> isGateEvent e)"
  by (simp add: noGateEvents_def list_all_iff)

lemma noGateEvents_andThen:
  "noGateEvents (snd p) \<Longrightarrow> noGateEvents (snd q) \<Longrightarrow> noGateEvents (snd (andThen p q))"
  using andThen_event [of _ p q] by (auto simp: noGateEvents_iff)

text \<open>The events and the exit status of \<open>setupChecks\<close>.\<close>

lemma setupChecks_events:
  "e \<in> set (snd (setupChecks env)) \<Longrightarrow>
   e = CallAddReadyzCheck \<or> e = CallAddHealthzCheck \<or> (\<exists>err msg kv. e = LogError err msg kv)"
  by (auto simp: setupChecks_def split: option.splits)

lemma setupChecks_exit: "fst (setupChecks env) = Exit c \<Longrightarrow> c = 1"
  by (auto simp: setupChecks_def split: option.splits)

lemma setupChecks_ok:
  "AddReadyzCheck env = None \<Longrightarrow> AddHealthzCheck env = None \<Longrightarrow>
   setupChecks env = (Return (), [CallAddReadyzCheck, CallAddHealthzCheck])"
  by (simp add: setupChecks_def)

text \<open>The events and the exit status of the two registries.\<close>

lemma controllerStep_events:
  "e \<in> set (snd (controllerStep fl env r)) \<Longrightarrow>
   (\<exists>c. e = CallSetupWithManager r c) \<or> (\<exists>err msg kv. e = LogError err msg kv)"
  by (auto simp: controllerStep_def registerController_def split: option.splits)

lemma controllerStep_exit: "fst (controllerStep fl env r) = Exit c \<Longrightarrow> c = 1"
  by (auto simp: controllerStep_def registerController_def split: option.splits)

lemma webhookStep_events:
  "e \<in> set (snd (webhookStep env w)) \<Longrightarrow>
   e = CallSetupWebhookWithManager w \<or> (\<exists>err msg kv. e = LogError err msg kv)"
  by (auto simp: webhookStep_def registerWebhook_def split: option.splits)

lemma webhookStep_exit: "fst (webhookStep env w) = Exit c \<Longrightarrow> c = 1"
  by (auto simp: webhookStep_def registerWebhook_def split: option.splits)

lemma runAll_events:
  "e \<in> set (snd (runAll ps)) \<Longrightarrow> \<exists>p \<in> set ps. e \<in> set (snd p)"
proof (induction ps)
  case Nil
  then show ?case by simp
next
  case (Cons p ps)
  from andThen_event [of e p "runAll ps"] Cons show ?case by auto
qed

lemma runAll_exit:
  "fst (runAll ps) = Exit c \<Longrightarrow> \<exists>p \<in> set ps. fst p = Exit c"
proof (induction ps)
  case Nil
  then show ?case by simp
next
  case (Cons p ps)
  from andThen_exit_code [of p "runAll ps" c] Cons show ?case by auto
qed

lemma setupReconcilers_events:
  "e \<in> set (snd (setupReconcilers fl env)) \<Longrightarrow>
   (\<exists>r c. e = CallSetupWithManager r c) \<or> (\<exists>err msg kv. e = LogError err msg kv)"
  unfolding setupReconcilers_runAll
  by (drule runAll_events) (auto dest: controllerStep_events)

lemma setupWebhooks_events:
  "e \<in> set (snd (setupWebhooks env)) \<Longrightarrow>
   (\<exists>w. e = CallSetupWebhookWithManager w) \<or> (\<exists>err msg kv. e = LogError err msg kv)"
  unfolding setupWebhooks_runAll
  by (drule runAll_events) (auto dest: webhookStep_events)

lemma setupReconcilers_exit: "fst (setupReconcilers fl env) = Exit c \<Longrightarrow> c = 1"
  unfolding setupReconcilers_runAll
  by (drule runAll_exit) (auto dest: controllerStep_exit)

lemma setupWebhooks_exit: "fst (setupWebhooks env) = Exit c \<Longrightarrow> c = 1"
  unfolding setupWebhooks_runAll
  by (drule runAll_exit) (auto dest: webhookStep_exit)

lemma setupReconcilers_returns_iff:
  "fst (setupReconcilers fl env) = Return () \<longleftrightarrow>
   (\<forall>r \<in> set reconcilerSequence. SetupWithManager env r (concurrencyOf fl r) = None)"
proof
  assume ret: "fst (setupReconcilers fl env) = Return ()"
  show "\<forall>r \<in> set reconcilerSequence. SetupWithManager env r (concurrencyOf fl r) = None"
  proof (rule ccontr)
    assume "\<not> (\<forall>r \<in> set reconcilerSequence. SetupWithManager env r (concurrencyOf fl r) = None)"
    then obtain i where "i < length reconcilerSequence"
      "SetupWithManager env (reconcilerSequence ! i) (concurrencyOf fl (reconcilerSequence ! i)) \<noteq> None"
      by (auto simp: in_set_conv_nth)
    from controllers_first_failure [OF this] ret show False
      by (auto simp: setupReconcilers_runAll)
  qed
next
  assume "\<forall>r \<in> set reconcilerSequence. SetupWithManager env r (concurrencyOf fl r) = None"
  then show "fst (setupReconcilers fl env) = Return ()"
    by (simp add: setupReconcilers_runAll controllers_all_ok)
qed

lemma setupWebhooks_returns_iff:
  "fst (setupWebhooks env) = Return () \<longleftrightarrow>
   (\<forall>w \<in> set webhookSequence. SetupWebhookWithManager env w = None)"
proof
  assume ret: "fst (setupWebhooks env) = Return ()"
  show "\<forall>w \<in> set webhookSequence. SetupWebhookWithManager env w = None"
  proof (rule ccontr)
    assume "\<not> (\<forall>w \<in> set webhookSequence. SetupWebhookWithManager env w = None)"
    then obtain i where "i < length webhookSequence"
      "SetupWebhookWithManager env (webhookSequence ! i) \<noteq> None"
      by (auto simp: in_set_conv_nth)
    from webhooks_first_failure [OF this] ret show False
      by (auto simp: setupWebhooks_runAll)
  qed
next
  assume "\<forall>w \<in> set webhookSequence. SetupWebhookWithManager env w = None"
  then show "fst (setupWebhooks env) = Return ()"
    by (simp add: setupWebhooks_runAll webhooks_all_ok)
qed

text \<open>\<open>startManager\<close> and the statements after the call of \<open>waitForAPIs\<close>.\<close>

lemma startManager_events:
  "e \<in> set (snd (startManager env)) \<Longrightarrow>
   e = Info ''starting manager'' \<or> e = CallStart \<or> (\<exists>err msg kv. e = LogError err msg kv)"
  by (auto simp: startManager_def split: option.splits)

lemma startManager_exit: "fst (startManager env) = Exit c \<Longrightarrow> c = 1"
  by (auto simp: startManager_def split: option.splits)

lemma startManager_starts: "CallStart \<in> set (snd (startManager env))"
  by (auto simp: startManager_def split: option.splits)

lemma afterGate_noGateEvents: "noGateEvents (snd (afterGate fl env))"
  unfolding afterGate_def
  by (intro noGateEvents_andThen)
     (auto simp: noGateEvents_iff
       dest!: setupChecks_events setupReconcilers_events setupWebhooks_events startManager_events)

lemma afterGate_exit: "fst (afterGate fl env) = Exit c \<Longrightarrow> c = 1"
  unfolding afterGate_def
  by (auto dest!: andThen_exit_code
       dest: setupChecks_exit setupReconcilers_exit setupWebhooks_exit startManager_exit)

lemma afterGate_runs_iff:
  "reachesRunLoop (snd (afterGate fl env)) \<longleftrightarrow>
   fst (setupChecks env) = Return () \<and> fst (setupReconcilers fl env) = Return () \<and>
   fst (setupWebhooks env) = Return ()"
proof
  assume "reachesRunLoop (snd (afterGate fl env))"
  then have s: "CallStart \<in> set (snd (afterGate fl env))" by (simp add: reachesRunLoop_def)
  have a: "CallStart \<notin> set (snd (setupChecks env))"
    by (auto dest: setupChecks_events)
  have b: "CallStart \<notin> set (snd (setupReconcilers fl env))"
    by (auto dest: setupReconcilers_events)
  have c: "CallStart \<notin> set (snd (setupWebhooks env))"
    by (auto dest: setupWebhooks_events)
  from s a b c show "fst (setupChecks env) = Return () \<and> fst (setupReconcilers fl env) = Return () \<and>
   fst (setupWebhooks env) = Return ()"
    unfolding afterGate_def by (auto dest!: andThen_event)
next
  assume "fst (setupChecks env) = Return () \<and> fst (setupReconcilers fl env) = Return () \<and>
   fst (setupWebhooks env) = Return ()"
  then show "reachesRunLoop (snd (afterGate fl env))"
    by (simp add: reachesRunLoop_def afterGate_def snd_andThen startManager_starts)
qed

lemma afterGate_returns:
  "fst (afterGate fl env) = Return () \<Longrightarrow>
   fst (setupReconcilers fl env) = Return () \<and> fst (setupWebhooks env) = Return ()"
  by (simp add: afterGate_def andThen_returns_iff)

lemma TLS_log_events:
  "e \<in> set (snd (GetTLSOptionOverrideFuncs lib options)) \<Longrightarrow>
   e = warnIgnoringCiphers \<or> (\<exists>c. e = InfoInsecureCipher c)"
  by (auto simp: GetTLSOptionOverrideFuncs_def Let_def
      split: prod.splits option.splits if_splits dest: insecureWarnings_only_warnings)

lemma TLS_log_quiet:
  "e \<in> set (snd (GetTLSOptionOverrideFuncs lib options)) \<Longrightarrow> \<not> isGateEvent e \<and> e \<noteq> CallStart"
  by (auto simp: warnIgnoringCiphers_def dest!: TLS_log_events)

lemma beforeGate_quiet: "e \<in> set (beforeGate fl env) \<Longrightarrow> \<not> isGateEvent e \<and> e \<noteq> CallStart"
  by (auto simp: beforeGate_def dest: TLS_log_quiet)

lemma preallocation_quiet: "e \<in> set (preallocation fl) \<Longrightarrow> \<not> isGateEvent e \<and> e \<noteq> CallStart"
  by (auto simp: preallocation_def split: if_splits)

lemma waitLoop_events:
  assumes "waitLoop supports n t = Some t'"
  shows "set t \<subseteq> set t' \<and> (\<forall>e \<in> set t' - set t. isGateEvent e \<and> e \<noteq> CallStart)"
proof (rule waitLoop.raw_induct
    [where P = "\<lambda>s n t y. set t \<subseteq> set y \<and> (\<forall>e \<in> set y - set t. isGateEvent e \<and> e \<noteq> CallStart)",
     OF _ assms])
  fix loop :: "(nat \<Rightarrow> error option) \<Rightarrow> nat \<Rightarrow> event list \<Rightarrow> event list option"
    and s :: "nat \<Rightarrow> error option" and n :: nat and t y :: "event list"
  assume IH: "\<And>s n t y. loop s n t = Some y \<Longrightarrow>
      set t \<subseteq> set y \<and> (\<forall>e \<in> set y - set t. isGateEvent e \<and> e \<noteq> CallStart)"
    and step: "(case s n of
        None \<Rightarrow> Some (t @ [CallServerSupportsVersion, InfoFoundAPI])
      | Some err \<Rightarrow>
          loop s (Suc n)
            (t @ [CallServerSupportsVersion, InfoWaitingForAPI err, Sleep (Second * 10)])) = Some y"
  show "set t \<subseteq> set y \<and> (\<forall>e \<in> set y - set t. isGateEvent e \<and> e \<noteq> CallStart)"
  proof (cases "s n")
    case None
    with step show ?thesis by auto
  next
    case (Some err)
    with step have "loop s (Suc n)
        (t @ [CallServerSupportsVersion, InfoWaitingForAPI err, Sleep (Second * 10)]) = Some y"
      by simp
    from IH [OF this] show ?thesis by auto
  qed
qed

lemma waitForAPIs_events:
  assumes "waitForAPIs env = Some (err, t)"
  shows "CallNewDiscoveryClient \<in> set t \<and> (\<forall>e \<in> set t. isGateEvent e \<and> e \<noteq> CallStart)"
proof (cases "NewDiscoveryClientForConfig env")
  case (Some e)
  with assms show ?thesis by (auto simp: waitForAPIs_def)
next
  case None
  with assms have "waitLoop (ServerSupportsVersion env) 0 [CallNewDiscoveryClient] = Some t"
    by (auto simp: waitForAPIs_def split: option.splits)
  from waitLoop_events [OF this] show ?thesis by auto
qed

text \<open>\<open>main\<close> when an earlier step fails, and from the test of the switch on.\<close>

lemma main_stops_early:
  assumes "\<not> reachesGateTest fl env"
  shows "\<exists>t. main fl env = Some (Exit 1, t) \<and> noGateEvents t \<and> \<not> reachesRunLoop t"
proof -
  obtain ms err logged where tls:
    "GetTLSOptionOverrideFuncs (cliflagLib env) (tlsOptions fl) = ((ms, err), logged)"
    by (cases "GetTLSOptionOverrideFuncs (cliflagLib env) (tlsOptions fl)") auto
  have q: "\<forall>e \<in> set logged. \<not> isGateEvent e \<and> e \<noteq> CallStart"
    using TLS_log_quiet [of _ "cliflagLib env" "tlsOptions fl"] tls by simp
  show ?thesis
  proof (cases "logsValidateAndApply env")
    case (Some e)
    then show ?thesis by (simp add: main_def noGateEvents_def reachesRunLoop_def)
  next
    case None
    note logs = this
    show ?thesis
    proof (cases "GetConfigOrDie env")
      case False
      with logs show ?thesis by (simp add: main_def noGateEvents_def reachesRunLoop_def)
    next
      case True
      note cfg = this
      show ?thesis
      proof (cases err)
        case (Some e)
        with logs cfg tls q show ?thesis
          by (auto simp: main_def noGateEvents_iff reachesRunLoop_def)
      next
        case None
        with assms logs cfg tls obtain e where "NewManager env = Some e"
          by (auto simp: reachesGateTest_def)
        with None logs cfg tls q show ?thesis
          by (auto simp: main_def noGateEvents_iff reachesRunLoop_def)
      qed
    qed
  qed
qed

lemma main_from_gate:
  assumes "reachesGateTest fl env"
  shows "main fl env =
     (if waitForMetal3Controller fl
      then (case waitForAPIs env of
              None \<Rightarrow> None
            | Some (Some err, t) \<Rightarrow>
                Some (Exit 1, beforeGate fl env @ CallGetConfig # t @
                        [LogError err ''unable to discover required APIs'' []])
            | Some (None, t) \<Rightarrow>
                Some (andThen (Return (), beforeGate fl env @ CallGetConfig # t @ preallocation fl)
                        (afterGate fl env)))
      else Some (andThen (Return (), beforeGate fl env @ preallocation fl) (afterGate fl env)))"
proof -
  obtain ms logged where tls:
    "GetTLSOptionOverrideFuncs (cliflagLib env) (tlsOptions fl) = ((ms, None), logged)"
    using assms
    by (cases "GetTLSOptionOverrideFuncs (cliflagLib env) (tlsOptions fl)")
       (auto simp: reachesGateTest_def)
  from assms have pre: "logsValidateAndApply env = None" "GetConfigOrDie env" "NewManager env = None"
    by (simp_all add: reachesGateTest_def)
  show ?thesis
  proof (cases "waitForMetal3Controller fl")
    case False
    with pre tls show ?thesis
      by (simp add: main_def beforeGate_def preallocation_def afterGate_def)
  next
    case True
    show ?thesis
    proof (cases "waitForAPIs env")
      case None
      with True pre tls show ?thesis by (simp add: main_def)
    next
      case (Some r)
      obtain err t where r: "r = (err, t)" by (cases r)
      show ?thesis
      proof (cases err)
        case None
        with Some r True pre tls show ?thesis
          by (simp add: main_def beforeGate_def preallocation_def afterGate_def)
      next
        case (Some e)
        with \<open>waitForAPIs env = Some r\<close> r True pre tls show ?thesis
          by (simp add: main_def beforeGate_def)
      qed
    qed
  qed
qed

lemma reachesRunLoop_append:
  "reachesRunLoop (xs @ ys) \<longleftrightarrow> reachesRunLoop xs \<or> reachesRunLoop ys"
  by (auto simp: reachesRunLoop_def)

lemma reachesRunLoop_Cons:
  "reachesRunLoop (e # xs) \<longleftrightarrow> e = CallStart \<or> reachesRunLoop xs"
  by (auto simp: reachesRunLoop_def)

lemma noGateEvents_append:
  "noGateEvents (xs @ ys) \<longleftrightarrow> noGateEvents xs \<and> noGateEvents ys"
  by (auto simp: noGateEvents_def)

lemma noGateEvents_attempts: "noGateEvents t \<Longrightarrow> discoveryAttempts t = 0"
  by (induction t rule: discoveryAttempts.induct) (simp_all add: noGateEvents_def)

lemma beforeGate_no_start: "\<not> reachesRunLoop (beforeGate fl env)"
  using beforeGate_quiet [of CallStart fl env] by (auto simp: reachesRunLoop_def)

lemma preallocation_no_start: "\<not> reachesRunLoop (preallocation fl)"
  using preallocation_quiet [of CallStart fl] by (auto simp: reachesRunLoop_def)

lemma beforeGate_noGateEvents: "noGateEvents (beforeGate fl env)"
  using beforeGate_quiet [of _ fl env] by (auto simp: noGateEvents_iff)

lemma preallocation_noGateEvents: "noGateEvents (preallocation fl)"
  using preallocation_quiet [of _ fl] by (auto simp: noGateEvents_iff)

lemma afterGate_result: "fst (afterGate fl env) = Return () \<or> fst (afterGate fl env) = Exit 1"
  using afterGate_exit [of fl env] by (cases "fst (afterGate fl env)") auto

lemma afterGate_return_runs:
  "fst (afterGate fl env) = Return () \<Longrightarrow> reachesRunLoop (snd (afterGate fl env))"
  by (simp add: afterGate_runs_iff) (simp add: afterGate_def andThen_returns_iff)

text \<open>Every run of main that ends: with status 1, or after all of the set-up succeeded.\<close>

lemma main_outcome:
  assumes "main fl env = Some (res, t)"
  shows "res = Exit 1 \<or> res = Return ()"
    and "res = Return () \<or> reachesRunLoop t \<Longrightarrow>
         fst (setupReconcilers fl env) = Return () \<and> fst (setupWebhooks env) = Return ()"
proof -
  have "(res = Exit 1 \<or> res = Return ()) \<and>
        (res = Return () \<or> reachesRunLoop t \<longrightarrow>
           fst (setupReconcilers fl env) = Return () \<and> fst (setupWebhooks env) = Return ())"
  proof (cases "reachesGateTest fl env")
    case False
    from main_stops_early [OF this] assms show ?thesis by auto
  next
    case True
    note eq = main_from_gate [OF True]
    have tail: "(fst (afterGate fl env) = Exit 1 \<or> fst (afterGate fl env) = Return ()) \<and>
        (fst (afterGate fl env) = Return () \<or> reachesRunLoop (snd (afterGate fl env)) \<longrightarrow>
           fst (setupReconcilers fl env) = Return () \<and> fst (setupWebhooks env) = Return ())"
      using afterGate_result [of fl env] afterGate_return_runs [of fl env]
      by (auto simp: afterGate_runs_iff)
    show ?thesis
    proof (cases "waitForMetal3Controller fl")
      case False
      with eq assms have "res = fst (afterGate fl env)"
        and "t = (beforeGate fl env @ preallocation fl) @ snd (afterGate fl env)"
        by auto
      with tail show ?thesis
        by (simp add: reachesRunLoop_append beforeGate_no_start preallocation_no_start)
    next
      case True
      with eq assms obtain err w where w: "waitForAPIs env = Some (err, w)"
        by (cases "waitForAPIs env") auto
      from waitForAPIs_events [OF w] have nw: "\<not> reachesRunLoop w"
        by (auto simp: reachesRunLoop_def)
      show ?thesis
      proof (cases err)
        case (Some e)
        with eq True w assms have "res = Exit 1"
          and "t = beforeGate fl env @ (CallGetConfig # w) @
               [LogError e ''unable to discover required APIs'' []]"
          by auto
        with nw show ?thesis
          by (simp add: reachesRunLoop_append reachesRunLoop_Cons beforeGate_no_start)
             (simp add: reachesRunLoop_def)
      next
        case None
        with eq True w assms have "res = fst (afterGate fl env)"
          and "t = (beforeGate fl env @ (CallGetConfig # w) @ preallocation fl) @ snd (afterGate fl env)"
          by auto
        with tail nw show ?thesis
          by (simp add: reachesRunLoop_append reachesRunLoop_Cons beforeGate_no_start
              preallocation_no_start)
      qed
    qed
  qed
  then show "res = Exit 1 \<or> res = Return ()"
    and "res = Return () \<or> reachesRunLoop t \<Longrightarrow>
         fst (setupReconcilers fl env) = Return () \<and> fst (setupWebhooks env) = Return ()"
    by blast+
qed

lemma main_default_run:
  assumes "logsValidateAndApply env = None" and "GetConfigOrDie env" and "NewManager env = None"
    and "AddReadyzCheck env = None" and "AddHealthzCheck env = None"
    and "\<forall>r c. SetupWithManager env r c = None"
    and "\<forall>w. SetupWebhookWithManager env w = None"
  shows "main defaultFlags env =
     Some (fst (startManager env),
       [CallGetConfig, CallNewManager [SetMinVersion VersionTLS12, SetMaxVersion VersionTLS13],
        CallAddReadyzCheck, CallAddHealthzCheck] @
       map (\<lambda>r. CallSetupWithManager r (concurrencyOf defaultFlags r)) reconcilerSequence @
       map CallSetupWebhookWithManager webhookSequence @
       snd (startManager env))"
proof -
  have tls: "GetTLSOptionOverrideFuncs (cliflagLib env) (tlsOptions defaultFlags) =
      (([SetMinVersion VersionTLS12, SetMaxVersion VersionTLS13], None), [])"
    by (simp add: GetTLSOptionOverrideFuncs_def GetTLSVersion_def defaultFlags_def
        TLSVersion12_def TLSVersion13_def VersionTLS12_def VersionTLS13_def)
  have reach: "reachesGateTest defaultFlags env"
    using assms(1-3) tls by (simp add: reachesGateTest_def)
  have nw: "\<not> waitForMetal3Controller defaultFlags" "preallocation defaultFlags = []"
    by (simp_all add: defaultFlags_def preallocation_def)
  have bg: "beforeGate defaultFlags env =
      [CallGetConfig, CallNewManager [SetMinVersion VersionTLS12, SetMaxVersion VersionTLS13]]"
    by (simp add: beforeGate_def tls)
  have ag: "afterGate defaultFlags env =
      (fst (startManager env),
       [CallAddReadyzCheck, CallAddHealthzCheck] @
       map (\<lambda>r. CallSetupWithManager r (concurrencyOf defaultFlags r)) reconcilerSequence @
       map CallSetupWebhookWithManager webhookSequence @
       snd (startManager env))"
    using assms(4-7)
    by (simp add: afterGate_def setupChecks_ok setupReconcilers_runAll setupWebhooks_runAll
        controllers_all_ok webhooks_all_ok)
  show ?thesis
    by (simp add: main_from_gate [OF reach] nw bg ag)
qed

lemma main_without_gate:
  assumes nw: "\<not> waitForMetal3Controller fl"
  shows "\<exists>res t. main fl env = Some (res, t) \<and> noGateEvents t \<and> discoveryAttempts t = 0"
proof (cases "reachesGateTest fl env")
  case False
  from main_stops_early [OF this] show ?thesis
    by (auto dest: noGateEvents_attempts)
next
  case True
  have "noGateEvents ((beforeGate fl env @ preallocation fl) @ snd (afterGate fl env))"
    by (simp add: noGateEvents_append beforeGate_noGateEvents preallocation_noGateEvents
        afterGate_noGateEvents)
  with main_from_gate [OF True] nw show ?thesis
    by (auto dest: noGateEvents_attempts)
qed

subsection \<open>Fail-fast registration and the opt-in readiness wait\<close>

text \<open>
  C4. In each registry, if the registration at position \<open>i\<close> of the fixed sequence is
  rejected, the function ends the process with status 1 and the registrations attempted are
  a prefix of the sequence that ends at the first rejected position, at or before \<open>i\<close>
  (at \<open>i\<close> itself when the earlier ones are accepted): nothing after position \<open>i\<close> is
  attempted. A registry returns only if every registration is accepted. If any
  registration of either registry is rejected, every run of \<open>main\<close> that ends does so with
  status 1 and without starting the run loop.
\<close>

theorem registration_fails_fast:
  "(i < length reconcilerSequence \<and>
    SetupWithManager env (reconcilerSequence ! i) (concurrencyOf fl (reconcilerSequence ! i)) \<noteq> None \<longrightarrow>
      fst (setupReconcilers fl env) = Exit 1 \<and>
      (\<exists>k \<le> i. attemptedControllers (snd (setupReconcilers fl env)) = take (Suc k) reconcilerSequence) \<and>
      ((\<forall>j < i. SetupWithManager env (reconcilerSequence ! j)
                  (concurrencyOf fl (reconcilerSequence ! j)) = None) \<longrightarrow>
         attemptedControllers (snd (setupReconcilers fl env)) = take (Suc i) reconcilerSequence)) \<and>
   (n < length webhookSequence \<and> SetupWebhookWithManager env (webhookSequence ! n) \<noteq> None \<longrightarrow>
      fst (setupWebhooks env) = Exit 1 \<and>
      (\<exists>k \<le> n. attemptedWebhooks (snd (setupWebhooks env)) = take (Suc k) webhookSequence) \<and>
      ((\<forall>j < n. SetupWebhookWithManager env (webhookSequence ! j) = None) \<longrightarrow>
         attemptedWebhooks (snd (setupWebhooks env)) = take (Suc n) webhookSequence)) \<and>
   (fst (setupReconcilers fl env) = Return () \<longleftrightarrow>
      (\<forall>r \<in> set reconcilerSequence. SetupWithManager env r (concurrencyOf fl r) = None)) \<and>
   (fst (setupWebhooks env) = Return () \<longleftrightarrow>
      (\<forall>w \<in> set webhookSequence. SetupWebhookWithManager env w = None)) \<and>
   ((\<exists>r \<in> set reconcilerSequence. SetupWithManager env r (concurrencyOf fl r) \<noteq> None) \<or>
    (\<exists>w \<in> set webhookSequence. SetupWebhookWithManager env w \<noteq> None) \<longrightarrow>
      (\<forall>res t. main fl env = Some (res, t) \<longrightarrow> res = Exit 1 \<and> \<not> reachesRunLoop t))"
proof (intro conjI)
  show "i < length reconcilerSequence \<and>
    SetupWithManager env (reconcilerSequence ! i) (concurrencyOf fl (reconcilerSequence ! i)) \<noteq> None \<longrightarrow>
      fst (setupReconcilers fl env) = Exit 1 \<and>
      (\<exists>k \<le> i. attemptedControllers (snd (setupReconcilers fl env)) = take (Suc k) reconcilerSequence) \<and>
      ((\<forall>j < i. SetupWithManager env (reconcilerSequence ! j)
                  (concurrencyOf fl (reconcilerSequence ! j)) = None) \<longrightarrow>
         attemptedControllers (snd (setupReconcilers fl env)) = take (Suc i) reconcilerSequence)"
  proof
    assume a: "i < length reconcilerSequence \<and>
      SetupWithManager env (reconcilerSequence ! i) (concurrencyOf fl (reconcilerSequence ! i)) \<noteq> None"
    then obtain k where k: "k \<le> i"
      "SetupWithManager env (reconcilerSequence ! k) (concurrencyOf fl (reconcilerSequence ! k)) \<noteq> None"
      "fst (setupReconcilers fl env) = Exit 1"
      "attemptedControllers (snd (setupReconcilers fl env)) = take (Suc k) reconcilerSequence"
      using controllers_first_failure [of i reconcilerSequence env fl]
      by (auto simp: setupReconcilers_runAll)
    have "k = i" if "\<forall>j < i. SetupWithManager env (reconcilerSequence ! j)
                  (concurrencyOf fl (reconcilerSequence ! j)) = None"
      using that k(1,2) by (cases "k < i") auto
    with k show "fst (setupReconcilers fl env) = Exit 1 \<and>
      (\<exists>k \<le> i. attemptedControllers (snd (setupReconcilers fl env)) = take (Suc k) reconcilerSequence) \<and>
      ((\<forall>j < i. SetupWithManager env (reconcilerSequence ! j)
                  (concurrencyOf fl (reconcilerSequence ! j)) = None) \<longrightarrow>
         attemptedControllers (snd (setupReconcilers fl env)) = take (Suc i) reconcilerSequence)"
      by blast
  qed
next
  show "n < length webhookSequence \<and> SetupWebhookWithManager env (webhookSequence ! n) \<noteq> None \<longrightarrow>
      fst (setupWebhooks env) = Exit 1 \<and>
      (\<exists>k \<le> n. attemptedWebhooks (snd (setupWebhooks env)) = take (Suc k) webhookSequence) \<and>
      ((\<forall>j < n. SetupWebhookWithManager env (webhookSequence ! j) = None) \<longrightarrow>
         attemptedWebhooks (snd (setupWebhooks env)) = take (Suc n) webhookSequence)"
  proof
    assume a: "n < length webhookSequence \<and> SetupWebhookWithManager env (webhookSequence ! n) \<noteq> None"
    then obtain k where k: "k \<le> n"
      "SetupWebhookWithManager env (webhookSequence ! k) \<noteq> None"
      "fst (setupWebhooks env) = Exit 1"
      "attemptedWebhooks (snd (setupWebhooks env)) = take (Suc k) webhookSequence"
      using webhooks_first_failure [of n webhookSequence env]
      by (auto simp: setupWebhooks_runAll)
    have "k = n" if "\<forall>j < n. SetupWebhookWithManager env (webhookSequence ! j) = None"
      using that k(1,2) by (cases "k < n") auto
    with k show "fst (setupWebhooks env) = Exit 1 \<and>
      (\<exists>k \<le> n. attemptedWebhooks (snd (setupWebhooks env)) = take (Suc k) webhookSequence) \<and>
      ((\<forall>j < n. SetupWebhookWithManager env (webhookSequence ! j) = None) \<longrightarrow>
         attemptedWebhooks (snd (setupWebhooks env)) = take (Suc n) webhookSequence)"
      by blast
  qed
next
  show "fst (setupReconcilers fl env) = Return () \<longleftrightarrow>
      (\<forall>r \<in> set reconcilerSequence. SetupWithManager env r (concurrencyOf fl r) = None)"
    by (rule setupReconcilers_returns_iff)
next
  show "fst (setupWebhooks env) = Return () \<longleftrightarrow>
      (\<forall>w \<in> set webhookSequence. SetupWebhookWithManager env w = None)"
    by (rule setupWebhooks_returns_iff)
next
  show "(\<exists>r \<in> set reconcilerSequence. SetupWithManager env r (concurrencyOf fl r) \<noteq> None) \<or>
    (\<exists>w \<in> set webhookSequence. SetupWebhookWithManager env w \<noteq> None) \<longrightarrow>
      (\<forall>res t. main fl env = Some (res, t) \<longrightarrow> res = Exit 1 \<and> \<not> reachesRunLoop t)"
  proof (intro impI allI)
    fix res t
    assume f: "(\<exists>r \<in> set reconcilerSequence. SetupWithManager env r (concurrencyOf fl r) \<noteq> None) \<or>
      (\<exists>w \<in> set webhookSequence. SetupWebhookWithManager env w \<noteq> None)"
      and m: "main fl env = Some (res, t)"
    from f have "\<not> (fst (setupReconcilers fl env) = Return () \<and> fst (setupWebhooks env) = Return ())"
      by (auto simp: setupReconcilers_returns_iff setupWebhooks_returns_iff)
    with main_outcome [OF m] show "res = Exit 1 \<and> \<not> reachesRunLoop t" by blast
  qed
qed

theorem registration_fails_fast_witness:
  "fst (setupReconcilers defaultFlags rejectingEnv) = Exit 1 \<and>
   attemptedControllers (snd (setupReconcilers defaultFlags rejectingEnv)) =
     [Metal3MachineReconciler, Metal3ClusterReconciler, Metal3DataTemplateReconciler,
      Metal3DataReconciler] \<and>
   fst (setupWebhooks rejectingEnv) = Exit 1 \<and>
   attemptedWebhooks (snd (setupWebhooks rejectingEnv)) = [Metal3Cluster, Metal3Machine] \<and>
   main defaultFlags rejectingEnv =
     Some (Exit 1,
       [CallGetConfig, CallNewManager [SetMinVersion 0x0303, SetMaxVersion 0x0304],
        CallAddReadyzCheck, CallAddHealthzCheck,
        CallSetupWithManager Metal3MachineReconciler 1,
        CallSetupWithManager Metal3ClusterReconciler 10,
        CallSetupWithManager Metal3DataTemplateReconciler 10,
        CallSetupWithManager Metal3DataReconciler 10,
        LogError rejected ''unable to create controller'' [''controller'', ''Metal3DataReconciler'']])"
proof -
  have r: "(3::nat) < length reconcilerSequence \<and>
      SetupWithManager rejectingEnv (reconcilerSequence ! 3)
        (concurrencyOf defaultFlags (reconcilerSequence ! 3)) \<noteq> None"
    by (simp add: reconcilerSequence_def rejectingEnv_def workingEnv_def)
  have r': "\<forall>j < (3::nat). SetupWithManager rejectingEnv (reconcilerSequence ! j)
        (concurrencyOf defaultFlags (reconcilerSequence ! j)) = None"
    by (simp add: reconcilerSequence_def rejectingEnv_def workingEnv_def
        numeral_3_eq_3 less_Suc_eq)
  have w: "(1::nat) < length webhookSequence \<and>
      SetupWebhookWithManager rejectingEnv (webhookSequence ! 1) \<noteq> None"
    by (simp add: webhookSequence_def rejectingEnv_def workingEnv_def)
  have w': "\<forall>j < (1::nat). SetupWebhookWithManager rejectingEnv (webhookSequence ! j) = None"
    by (simp add: webhookSequence_def rejectingEnv_def workingEnv_def)
  have m: "main defaultFlags rejectingEnv =
     Some (Exit 1,
       [CallGetConfig, CallNewManager [SetMinVersion 0x0303, SetMaxVersion 0x0304],
        CallAddReadyzCheck, CallAddHealthzCheck,
        CallSetupWithManager Metal3MachineReconciler 1,
        CallSetupWithManager Metal3ClusterReconciler 10,
        CallSetupWithManager Metal3DataTemplateReconciler 10,
        CallSetupWithManager Metal3DataReconciler 10,
        LogError rejected ''unable to create controller'' [''controller'', ''Metal3DataReconciler'']])"
    by (simp add: main_def defaultFlags_def rejectingEnv_def workingEnv_def
        GetTLSOptionOverrideFuncs_def GetTLSVersion_def TLSVersion12_def TLSVersion13_def
        VersionTLS12_def VersionTLS13_def setupChecks_def setupReconcilers_def
        registerController_def)
  from registration_fails_fast [of 3 rejectingEnv defaultFlags 1] r r' w w' m
  show ?thesis by (simp add: reconcilerSequence_def webhookSequence_def)
qed

lemma main_blocks_iff:
  "main fl env = None \<longleftrightarrow>
   waitForMetal3Controller fl \<and> reachesGateTest fl env \<and> waitForAPIs env = None"
proof (cases "reachesGateTest fl env")
  case False
  from main_stops_early [OF this] False show ?thesis by auto
next
  case True
  show ?thesis
  proof (cases "waitForAPIs env")
    case None
    with True show ?thesis by (simp add: main_from_gate)
  next
    case (Some r)
    with True show ?thesis
      by (cases r; cases "fst r") (simp_all add: main_from_gate)
  qed
qed

lemma main_with_gate:
  assumes "waitForMetal3Controller fl" and "reachesGateTest fl env"
    and "waitForAPIs env = Some (err, w)"
  shows "main fl env =
     Some (case err of
             Some e \<Rightarrow>
               (Exit 1, beforeGate fl env @ CallGetConfig # w @
                  [LogError e ''unable to discover required APIs'' []])
           | None \<Rightarrow>
               andThen (Return (), beforeGate fl env @ CallGetConfig # w @ preallocation fl)
                 (afterGate fl env))"
  using assms by (cases err) (simp_all add: main_from_gate)

lemma main_gate_total:
  "(waitForMetal3Controller fl \<and> reachesGateTest fl env \<longrightarrow>
      (waitForAPIs env = None \<longrightarrow> main fl env = None) \<and>
      (\<forall>err w. waitForAPIs env = Some (err, w) \<longrightarrow>
         CallNewDiscoveryClient \<in> set w \<and>
         main fl env =
           Some (case err of
                   Some e \<Rightarrow>
                     (Exit 1, beforeGate fl env @ CallGetConfig # w @
                        [LogError e ''unable to discover required APIs'' []])
                 | None \<Rightarrow>
                     andThen (Return (), beforeGate fl env @ CallGetConfig # w @ preallocation fl)
                       (afterGate fl env)))) \<and>
   (\<not> waitForMetal3Controller fl \<and> reachesGateTest fl env \<longrightarrow>
      main fl env =
        Some (andThen (Return (), beforeGate fl env @ preallocation fl) (afterGate fl env))) \<and>
   (main fl env = None \<longleftrightarrow>
      waitForMetal3Controller fl \<and> reachesGateTest fl env \<and> waitForAPIs env = None)"
proof (intro conjI impI allI)
  assume "waitForMetal3Controller fl \<and> reachesGateTest fl env" and "waitForAPIs env = None"
  then show "main fl env = None" by (simp add: main_blocks_iff)
next
  fix err w
  assume "waitForAPIs env = Some (err, w)"
  then show "CallNewDiscoveryClient \<in> set w" using waitForAPIs_events by blast
next
  fix err w
  assume "waitForMetal3Controller fl \<and> reachesGateTest fl env" and "waitForAPIs env = Some (err, w)"
  then show "main fl env =
           Some (case err of
                   Some e \<Rightarrow>
                     (Exit 1, beforeGate fl env @ CallGetConfig # w @
                        [LogError e ''unable to discover required APIs'' []])
                 | None \<Rightarrow>
                     andThen (Return (), beforeGate fl env @ CallGetConfig # w @ preallocation fl)
                       (afterGate fl env))"
    by (simp add: main_with_gate)
next
  assume "\<not> waitForMetal3Controller fl \<and> reachesGateTest fl env"
  then show "main fl env =
        Some (andThen (Return (), beforeGate fl env @ preallocation fl) (afterGate fl env))"
    by (simp add: main_from_gate)
next
  show "main fl env = None \<longleftrightarrow>
      waitForMetal3Controller fl \<and> reachesGateTest fl env \<and> waitForAPIs env = None"
    by (rule main_blocks_iff)
qed

lemma main_switch_facts:
  "(\<not> waitForMetal3Controller fl \<longrightarrow>
      (\<exists>res t. main fl env = Some (res, t) \<and> noGateEvents t \<and> discoveryAttempts t = 0)) \<and>
   (waitForMetal3Controller fl \<and> reachesGateTest fl env \<longrightarrow>
      (waitForAPIs env = None \<longrightarrow> main fl env = None) \<and>
      (\<forall>res t. main fl env = Some (res, t) \<longrightarrow> CallNewDiscoveryClient \<in> set t)) \<and>
   \<not> waitForMetal3Controller defaultFlags \<and>
   (logsValidateAndApply env = None \<and> GetConfigOrDie env \<and> NewManager env = None \<and>
    AddReadyzCheck env = None \<and> AddHealthzCheck env = None \<and>
    (\<forall>r c. SetupWithManager env r c = None) \<and> (\<forall>w. SetupWebhookWithManager env w = None) \<longrightarrow>
      main defaultFlags env =
        Some (fst (startManager env),
          [CallGetConfig, CallNewManager [SetMinVersion VersionTLS12, SetMaxVersion VersionTLS13],
           CallAddReadyzCheck, CallAddHealthzCheck] @
          map (\<lambda>r. CallSetupWithManager r (concurrencyOf defaultFlags r)) reconcilerSequence @
          map CallSetupWebhookWithManager webhookSequence @
          snd (startManager env)) \<and>
      (\<exists>res t. main defaultFlags env = Some (res, t) \<and> reachesRunLoop t \<and> noGateEvents t \<and>
         discoveryAttempts t = 0))"
proof (intro conjI)
  show "\<not> waitForMetal3Controller fl \<longrightarrow>
      (\<exists>res t. main fl env = Some (res, t) \<and> noGateEvents t \<and> discoveryAttempts t = 0)"
    by (simp add: main_without_gate)
next
  show "waitForMetal3Controller fl \<and> reachesGateTest fl env \<longrightarrow>
      (waitForAPIs env = None \<longrightarrow> main fl env = None) \<and>
      (\<forall>res t. main fl env = Some (res, t) \<longrightarrow> CallNewDiscoveryClient \<in> set t)"
  proof (intro impI conjI allI)
    assume a: "waitForMetal3Controller fl \<and> reachesGateTest fl env"
    then have eq: "main fl env =
       (case waitForAPIs env of
              None \<Rightarrow> None
            | Some (Some err, t) \<Rightarrow>
                Some (Exit 1, beforeGate fl env @ CallGetConfig # t @
                        [LogError err ''unable to discover required APIs'' []])
            | Some (None, t) \<Rightarrow>
                Some (andThen (Return (), beforeGate fl env @ CallGetConfig # t @ preallocation fl)
                        (afterGate fl env)))"
      by (simp add: main_from_gate)
    {
      assume "waitForAPIs env = None"
      with eq show "main fl env = None" by simp
    }
    {
      fix res t
      assume m: "main fl env = Some (res, t)"
      with eq obtain err w where w: "waitForAPIs env = Some (err, w)"
        by (cases "waitForAPIs env") auto
      from waitForAPIs_events [OF w] have "CallNewDiscoveryClient \<in> set w" by simp
      with eq m w show "CallNewDiscoveryClient \<in> set t"
        by (cases err) auto
    }
  qed
next
  show "\<not> waitForMetal3Controller defaultFlags" by (simp add: defaultFlags_def)
next
  show "logsValidateAndApply env = None \<and> GetConfigOrDie env \<and> NewManager env = None \<and>
    AddReadyzCheck env = None \<and> AddHealthzCheck env = None \<and>
    (\<forall>r c. SetupWithManager env r c = None) \<and> (\<forall>w. SetupWebhookWithManager env w = None) \<longrightarrow>
      main defaultFlags env =
        Some (fst (startManager env),
          [CallGetConfig, CallNewManager [SetMinVersion VersionTLS12, SetMaxVersion VersionTLS13],
           CallAddReadyzCheck, CallAddHealthzCheck] @
          map (\<lambda>r. CallSetupWithManager r (concurrencyOf defaultFlags r)) reconcilerSequence @
          map CallSetupWebhookWithManager webhookSequence @
          snd (startManager env)) \<and>
      (\<exists>res t. main defaultFlags env = Some (res, t) \<and> reachesRunLoop t \<and> noGateEvents t \<and>
         discoveryAttempts t = 0)"
  proof
    assume a: "logsValidateAndApply env = None \<and> GetConfigOrDie env \<and> NewManager env = None \<and>
      AddReadyzCheck env = None \<and> AddHealthzCheck env = None \<and>
      (\<forall>r c. SetupWithManager env r c = None) \<and> (\<forall>w. SetupWebhookWithManager env w = None)"
    then have run: "main defaultFlags env =
        Some (fst (startManager env),
          [CallGetConfig, CallNewManager [SetMinVersion VersionTLS12, SetMaxVersion VersionTLS13],
           CallAddReadyzCheck, CallAddHealthzCheck] @
          map (\<lambda>r. CallSetupWithManager r (concurrencyOf defaultFlags r)) reconcilerSequence @
          map CallSetupWebhookWithManager webhookSequence @
          snd (startManager env))"
      by (intro main_default_run) simp_all
    have started: "reachesRunLoop
         ([CallGetConfig, CallNewManager [SetMinVersion VersionTLS12, SetMaxVersion VersionTLS13],
           CallAddReadyzCheck, CallAddHealthzCheck] @
          map (\<lambda>r. CallSetupWithManager r (concurrencyOf defaultFlags r)) reconcilerSequence @
          map CallSetupWebhookWithManager webhookSequence @
          snd (startManager env))"
      using startManager_starts [of env] by (simp add: reachesRunLoop_def)
    have "\<not> waitForMetal3Controller defaultFlags" by (simp add: defaultFlags_def)
    with main_without_gate [of defaultFlags env] run
    have "noGateEvents
         ([CallGetConfig, CallNewManager [SetMinVersion VersionTLS12, SetMaxVersion VersionTLS13],
           CallAddReadyzCheck, CallAddHealthzCheck] @
          map (\<lambda>r. CallSetupWithManager r (concurrencyOf defaultFlags r)) reconcilerSequence @
          map CallSetupWebhookWithManager webhookSequence @
          snd (startManager env))"
      by auto
    with run started show "main defaultFlags env =
        Some (fst (startManager env),
          [CallGetConfig, CallNewManager [SetMinVersion VersionTLS12, SetMaxVersion VersionTLS13],
           CallAddReadyzCheck, CallAddHealthzCheck] @
          map (\<lambda>r. CallSetupWithManager r (concurrencyOf defaultFlags r)) reconcilerSequence @
          map CallSetupWebhookWithManager webhookSequence @
          snd (startManager env)) \<and>
      (\<exists>res t. main defaultFlags env = Some (res, t) \<and> reachesRunLoop t \<and> noGateEvents t \<and>
         discoveryAttempts t = 0)"
      by (auto dest: noGateEvents_attempts)
  qed
qed

text \<open>
  C6. With \<open>waitForMetal3Controller\<close> off, \<open>main\<close> always ends and its run has no event of
  \<open>waitForAPIs\<close>: no discovery client, no discovery call, no sleep; once the steps before
  the test have succeeded it is the run of the statements after the test alone. With the
  switch on, once the steps before the test have succeeded, \<open>waitForAPIs\<close> is called:
  \<open>main\<close> never ends if \<open>waitForAPIs\<close> never returns, and if \<open>waitForAPIs\<close> returns then
  \<open>main\<close> ends with a run that holds the events of \<open>waitForAPIs\<close>, the discovery client
  first, followed by the exit with status 1 on an error or by the rest of the set-up.
  \<open>main\<close> never ends only in this way. The switch is off by default, and with the default
  flags and collaborators that accept every set-up call the run goes through all
  registrations to the run loop, whatever discovery would answer.
\<close>

theorem gate_only_when_opted_in:
  "(\<not> waitForMetal3Controller fl \<longrightarrow>
      (\<exists>res t. main fl env = Some (res, t) \<and> noGateEvents t \<and> discoveryAttempts t = 0)) \<and>
   (\<not> waitForMetal3Controller fl \<and> reachesGateTest fl env \<longrightarrow>
      main fl env =
        Some (andThen (Return (), beforeGate fl env @ preallocation fl) (afterGate fl env))) \<and>
   (waitForMetal3Controller fl \<and> reachesGateTest fl env \<longrightarrow>
      (waitForAPIs env = None \<longrightarrow> main fl env = None) \<and>
      (\<forall>err w. waitForAPIs env = Some (err, w) \<longrightarrow>
         CallNewDiscoveryClient \<in> set w \<and>
         main fl env =
           Some (case err of
                   Some e \<Rightarrow>
                     (Exit 1, beforeGate fl env @ CallGetConfig # w @
                        [LogError e ''unable to discover required APIs'' []])
                 | None \<Rightarrow>
                     andThen (Return (), beforeGate fl env @ CallGetConfig # w @ preallocation fl)
                       (afterGate fl env))) \<and>
      (\<forall>res t. main fl env = Some (res, t) \<longrightarrow> CallNewDiscoveryClient \<in> set t)) \<and>
   (main fl env = None \<longleftrightarrow>
      waitForMetal3Controller fl \<and> reachesGateTest fl env \<and> waitForAPIs env = None) \<and>
   \<not> waitForMetal3Controller defaultFlags \<and>
   (logsValidateAndApply env = None \<and> GetConfigOrDie env \<and> NewManager env = None \<and>
    AddReadyzCheck env = None \<and> AddHealthzCheck env = None \<and>
    (\<forall>r c. SetupWithManager env r c = None) \<and> (\<forall>w. SetupWebhookWithManager env w = None) \<longrightarrow>
      main defaultFlags env =
        Some (fst (startManager env),
          [CallGetConfig, CallNewManager [SetMinVersion VersionTLS12, SetMaxVersion VersionTLS13],
           CallAddReadyzCheck, CallAddHealthzCheck] @
          map (\<lambda>r. CallSetupWithManager r (concurrencyOf defaultFlags r)) reconcilerSequence @
          map CallSetupWebhookWithManager webhookSequence @
          snd (startManager env)) \<and>
      (\<exists>res t. main defaultFlags env = Some (res, t) \<and> reachesRunLoop t \<and> noGateEvents t \<and>
         discoveryAttempts t = 0))"
proof -
  note old = main_switch_facts [of fl env]
  note new = main_gate_total [of fl env]
  from old have c1: "\<not> waitForMetal3Controller fl \<longrightarrow>
      (\<exists>res t. main fl env = Some (res, t) \<and> noGateEvents t \<and> discoveryAttempts t = 0)"
    by (rule conjunct1)
  from new have c2: "\<not> waitForMetal3Controller fl \<and> reachesGateTest fl env \<longrightarrow>
      main fl env =
        Some (andThen (Return (), beforeGate fl env @ preallocation fl) (afterGate fl env))"
    by (elim conjE)
  from new have c3a: "waitForMetal3Controller fl \<and> reachesGateTest fl env \<longrightarrow>
      (waitForAPIs env = None \<longrightarrow> main fl env = None) \<and>
      (\<forall>err w. waitForAPIs env = Some (err, w) \<longrightarrow>
         CallNewDiscoveryClient \<in> set w \<and>
         main fl env =
           Some (case err of
                   Some e \<Rightarrow>
                     (Exit 1, beforeGate fl env @ CallGetConfig # w @
                        [LogError e ''unable to discover required APIs'' []])
                 | None \<Rightarrow>
                     andThen (Return (), beforeGate fl env @ CallGetConfig # w @ preallocation fl)
                       (afterGate fl env)))"
    by (rule conjunct1)
  from old have c3b: "waitForMetal3Controller fl \<and> reachesGateTest fl env \<longrightarrow>
      (\<forall>res t. main fl env = Some (res, t) \<longrightarrow> CallNewDiscoveryClient \<in> set t)"
    by blast
  have c4: "main fl env = None \<longleftrightarrow>
      waitForMetal3Controller fl \<and> reachesGateTest fl env \<and> waitForAPIs env = None"
    by (rule main_blocks_iff)
  from old have c5: "\<not> waitForMetal3Controller defaultFlags" by (elim conjE)
  from old have c6: "logsValidateAndApply env = None \<and> GetConfigOrDie env \<and> NewManager env = None \<and>
    AddReadyzCheck env = None \<and> AddHealthzCheck env = None \<and>
    (\<forall>r c. SetupWithManager env r c = None) \<and> (\<forall>w. SetupWebhookWithManager env w = None) \<longrightarrow>
      main defaultFlags env =
        Some (fst (startManager env),
          [CallGetConfig, CallNewManager [SetMinVersion VersionTLS12, SetMaxVersion VersionTLS13],
           CallAddReadyzCheck, CallAddHealthzCheck] @
          map (\<lambda>r. CallSetupWithManager r (concurrencyOf defaultFlags r)) reconcilerSequence @
          map CallSetupWebhookWithManager webhookSequence @
          snd (startManager env)) \<and>
      (\<exists>res t. main defaultFlags env = Some (res, t) \<and> reachesRunLoop t \<and> noGateEvents t \<and>
         discoveryAttempts t = 0)"
    by (elim conjE)
  from c3a c3b have c3: "waitForMetal3Controller fl \<and> reachesGateTest fl env \<longrightarrow>
      (waitForAPIs env = None \<longrightarrow> main fl env = None) \<and>
      (\<forall>err w. waitForAPIs env = Some (err, w) \<longrightarrow>
         CallNewDiscoveryClient \<in> set w \<and>
         main fl env =
           Some (case err of
                   Some e \<Rightarrow>
                     (Exit 1, beforeGate fl env @ CallGetConfig # w @
                        [LogError e ''unable to discover required APIs'' []])
                 | None \<Rightarrow>
                     andThen (Return (), beforeGate fl env @ CallGetConfig # w @ preallocation fl)
                       (afterGate fl env))) \<and>
      (\<forall>res t. main fl env = Some (res, t) \<longrightarrow> CallNewDiscoveryClient \<in> set t)"
    by blast
  from c1 c2 c3 c4 c5 c6 show ?thesis by blast
qed

theorem gate_only_when_opted_in_witness:
  "main defaultFlags workingEnv =
     Some (Return (),
       [CallGetConfig, CallNewManager [SetMinVersion 0x0303, SetMaxVersion 0x0304],
        CallAddReadyzCheck, CallAddHealthzCheck,
        CallSetupWithManager Metal3MachineReconciler 1,
        CallSetupWithManager Metal3ClusterReconciler 10,
        CallSetupWithManager Metal3DataTemplateReconciler 10,
        CallSetupWithManager Metal3DataReconciler 10,
        CallSetupWithManager Metal3LabelSyncReconciler 10,
        CallSetupWithManager Metal3MachineTemplateReconciler 10,
        CallSetupWithManager Metal3RemediationReconciler 10,
        CallSetupWebhookWithManager Metal3Cluster,
        CallSetupWebhookWithManager Metal3Machine,
        CallSetupWebhookWithManager Metal3MachineTemplate,
        CallSetupWebhookWithManager Metal3DataTemplate,
        CallSetupWebhookWithManager Metal3Data,
        CallSetupWebhookWithManager Metal3DataClaim,
        CallSetupWebhookWithManager Metal3Remediation,
        CallSetupWebhookWithManager Metal3RemediationTemplate,
        Info ''starting manager'', CallStart]) \<and>
   main (defaultFlags\<lparr>waitForMetal3Controller := True\<rparr>) workingEnv =
     Some (Return (),
       [CallGetConfig, CallNewManager [SetMinVersion 0x0303, SetMaxVersion 0x0304],
        CallGetConfig, CallNewDiscoveryClient,
        CallServerSupportsVersion, InfoWaitingForAPI notFound, Sleep 10000000000,
        CallServerSupportsVersion, InfoWaitingForAPI notFound, Sleep 10000000000,
        CallServerSupportsVersion, InfoFoundAPI,
        CallAddReadyzCheck, CallAddHealthzCheck,
        CallSetupWithManager Metal3MachineReconciler 1,
        CallSetupWithManager Metal3ClusterReconciler 10,
        CallSetupWithManager Metal3DataTemplateReconciler 10,
        CallSetupWithManager Metal3DataReconciler 10,
        CallSetupWithManager Metal3LabelSyncReconciler 10,
        CallSetupWithManager Metal3MachineTemplateReconciler 10,
        CallSetupWithManager Metal3RemediationReconciler 10,
        CallSetupWebhookWithManager Metal3Cluster,
        CallSetupWebhookWithManager Metal3Machine,
        CallSetupWebhookWithManager Metal3MachineTemplate,
        CallSetupWebhookWithManager Metal3DataTemplate,
        CallSetupWebhookWithManager Metal3Data,
        CallSetupWebhookWithManager Metal3DataClaim,
        CallSetupWebhookWithManager Metal3Remediation,
        CallSetupWebhookWithManager Metal3RemediationTemplate,
        Info ''starting manager'', CallStart]) \<and>
   main (defaultFlags\<lparr>waitForMetal3Controller := True\<rparr>) neverFoundEnv = None"
proof -
  let ?on = "defaultFlags\<lparr>waitForMetal3Controller := True\<rparr>"
  have ok: "logsValidateAndApply workingEnv = None \<and> GetConfigOrDie workingEnv \<and>
      NewManager workingEnv = None \<and> AddReadyzCheck workingEnv = None \<and>
      AddHealthzCheck workingEnv = None \<and> (\<forall>r c. SetupWithManager workingEnv r c = None) \<and>
      (\<forall>w. SetupWebhookWithManager workingEnv w = None)"
    by (simp add: workingEnv_def)
  have tls: "GetTLSOptionOverrideFuncs excerptLib (tlsOptions ?on) =
      (([SetMinVersion 0x0303, SetMaxVersion 0x0304], None), [])"
    by (simp add: defaultFlags_def GetTLSOptionOverrideFuncs_def GetTLSVersion_def
        TLSVersion12_def TLSVersion13_def VersionTLS12_def VersionTLS13_def)
  have on: "waitForMetal3Controller ?on \<and> reachesGateTest ?on neverFoundEnv"
    using tls by (simp add: reachesGateTest_def neverFoundEnv_def workingEnv_def)
  have on': "waitForMetal3Controller ?on \<and> reachesGateTest ?on workingEnv"
    using tls by (simp add: reachesGateTest_def workingEnv_def)
  have blocked: "waitForAPIs neverFoundEnv = None"
    by (rule waitForAPIs_forever) (simp_all add: neverFoundEnv_def workingEnv_def)
  have found: "waitForAPIs workingEnv = Some (None, foundAfter [notFound, notFound])"
    by (rule waitForAPIs_found) (simp_all add: workingEnv_def less_Suc_eq)
  have bg: "beforeGate ?on workingEnv =
      [CallGetConfig, CallNewManager [SetMinVersion 0x0303, SetMaxVersion 0x0304]]"
    using tls by (simp add: beforeGate_def workingEnv_def)
  have ag: "afterGate ?on workingEnv =
      (Return (),
       [CallAddReadyzCheck, CallAddHealthzCheck,
        CallSetupWithManager Metal3MachineReconciler 1,
        CallSetupWithManager Metal3ClusterReconciler 10,
        CallSetupWithManager Metal3DataTemplateReconciler 10,
        CallSetupWithManager Metal3DataReconciler 10,
        CallSetupWithManager Metal3LabelSyncReconciler 10,
        CallSetupWithManager Metal3MachineTemplateReconciler 10,
        CallSetupWithManager Metal3RemediationReconciler 10,
        CallSetupWebhookWithManager Metal3Cluster,
        CallSetupWebhookWithManager Metal3Machine,
        CallSetupWebhookWithManager Metal3MachineTemplate,
        CallSetupWebhookWithManager Metal3DataTemplate,
        CallSetupWebhookWithManager Metal3Data,
        CallSetupWebhookWithManager Metal3DataClaim,
        CallSetupWebhookWithManager Metal3Remediation,
        CallSetupWebhookWithManager Metal3RemediationTemplate,
        Info ''starting manager'', CallStart])"
    by (simp add: afterGate_def setupChecks_def setupReconcilers_def setupWebhooks_def
        registerController_def registerWebhook_def startManager_def workingEnv_def
        defaultFlags_def)
  have pa: "preallocation ?on = []"
    by (simp add: preallocation_def defaultFlags_def)
  from gate_only_when_opted_in [of defaultFlags workingEnv] ok
  have "main defaultFlags workingEnv =
        Some (fst (startManager workingEnv),
          [CallGetConfig, CallNewManager [SetMinVersion VersionTLS12, SetMaxVersion VersionTLS13],
           CallAddReadyzCheck, CallAddHealthzCheck] @
          map (\<lambda>r. CallSetupWithManager r (concurrencyOf defaultFlags r)) reconcilerSequence @
          map CallSetupWebhookWithManager webhookSequence @
          snd (startManager workingEnv))"
    by blast
  then have one: "main defaultFlags workingEnv =
     Some (Return (),
       [CallGetConfig, CallNewManager [SetMinVersion 0x0303, SetMaxVersion 0x0304],
        CallAddReadyzCheck, CallAddHealthzCheck,
        CallSetupWithManager Metal3MachineReconciler 1,
        CallSetupWithManager Metal3ClusterReconciler 10,
        CallSetupWithManager Metal3DataTemplateReconciler 10,
        CallSetupWithManager Metal3DataReconciler 10,
        CallSetupWithManager Metal3LabelSyncReconciler 10,
        CallSetupWithManager Metal3MachineTemplateReconciler 10,
        CallSetupWithManager Metal3RemediationReconciler 10,
        CallSetupWebhookWithManager Metal3Cluster,
        CallSetupWebhookWithManager Metal3Machine,
        CallSetupWebhookWithManager Metal3MachineTemplate,
        CallSetupWebhookWithManager Metal3DataTemplate,
        CallSetupWebhookWithManager Metal3Data,
        CallSetupWebhookWithManager Metal3DataClaim,
        CallSetupWebhookWithManager Metal3Remediation,
        CallSetupWebhookWithManager Metal3RemediationTemplate,
        Info ''starting manager'', CallStart])"
    by (simp add: startManager_def workingEnv_def reconcilerSequence_def webhookSequence_def
        defaultFlags_def VersionTLS12_def VersionTLS13_def)
  from gate_only_when_opted_in [of ?on workingEnv] on' found
  have "main ?on workingEnv =
      Some (andThen (Return (), beforeGate ?on workingEnv @
              CallGetConfig # foundAfter [notFound, notFound] @ preallocation ?on)
            (afterGate ?on workingEnv))"
    by simp
  then have two: "main ?on workingEnv =
     Some (Return (),
       [CallGetConfig, CallNewManager [SetMinVersion 0x0303, SetMaxVersion 0x0304],
        CallGetConfig, CallNewDiscoveryClient,
        CallServerSupportsVersion, InfoWaitingForAPI notFound, Sleep 10000000000,
        CallServerSupportsVersion, InfoWaitingForAPI notFound, Sleep 10000000000,
        CallServerSupportsVersion, InfoFoundAPI,
        CallAddReadyzCheck, CallAddHealthzCheck,
        CallSetupWithManager Metal3MachineReconciler 1,
        CallSetupWithManager Metal3ClusterReconciler 10,
        CallSetupWithManager Metal3DataTemplateReconciler 10,
        CallSetupWithManager Metal3DataReconciler 10,
        CallSetupWithManager Metal3LabelSyncReconciler 10,
        CallSetupWithManager Metal3MachineTemplateReconciler 10,
        CallSetupWithManager Metal3RemediationReconciler 10,
        CallSetupWebhookWithManager Metal3Cluster,
        CallSetupWebhookWithManager Metal3Machine,
        CallSetupWebhookWithManager Metal3MachineTemplate,
        CallSetupWebhookWithManager Metal3DataTemplate,
        CallSetupWebhookWithManager Metal3Data,
        CallSetupWebhookWithManager Metal3DataClaim,
        CallSetupWebhookWithManager Metal3Remediation,
        CallSetupWebhookWithManager Metal3RemediationTemplate,
        Info ''starting manager'', CallStart])"
    by (simp add: bg ag pa foundAfter_def failedAttempt_def Second_def)
  from gate_only_when_opted_in [of ?on neverFoundEnv] on blocked
  have three: "main ?on neverFoundEnv = None"
    by blast
  from one two three show ?thesis by simp
qed

end
